theory Spec2Isabelle
  imports Main "HOL-Library.AList" "HOL-Library.Sublist"
begin

section \<open>The KonamiCode detector of assets/js/main.js\<close>

text \<open>
  The class \<^verbatim>\<open>KonamiCode\<close> is embedded as a record of its mutable fields and one
  state-passing function per method. What the methods reach in the browser (the clock,
  the pending timeouts, the running intervals, the behaviour of the audio element, the
  console) is carried in the same record as explicit world fields.
\<close>

subsection \<open>JavaScript values\<close>

text \<open>
  A button level read by \<^verbatim>\<open>gamepad.buttons[i]?.pressed\<close> is \<^verbatim>\<open>true\<close>, \<^verbatim>\<open>false\<close> or
  \<^verbatim>\<open>undefined\<close> (no such button): \<open>None\<close> stands for \<^verbatim>\<open>undefined\<close>.
\<close>

type_synonym jslevel = "bool option"

definition truthy :: "jslevel \<Rightarrow> bool" where
  "truthy v = (v = Some True)"

text \<open>Reading an array out of range gives \<^verbatim>\<open>undefined\<close>, here \<open>None\<close>.\<close>

definition nth_opt :: "'a list \<Rightarrow> nat \<Rightarrow> 'a option" where
  "nth_opt xs i = (if i < length xs then Some (xs ! i) else None)"

datatype gamepad = Gamepad (buttons: "bool list")

text \<open>\<^verbatim>\<open>navigator.getGamepads()[i]\<close>: a missing slot, a null slot and an index out of
  range are all falsy.\<close>

definition getGamepad :: "gamepad option list \<Rightarrow> int \<Rightarrow> gamepad option" where
  "getGamepad gps i =
     (if 0 \<le> i then (case nth_opt gps (nat i) of None \<Rightarrow> None | Some g \<Rightarrow> g) else None)"

definition pressedAt :: "gamepad \<Rightarrow> nat \<Rightarrow> jslevel" where
  "pressedAt g i = nth_opt (buttons g) i"

subsection \<open>The audio element and the observable effects\<close>

record audio_el =
  preload :: string
  src :: string
  volumePercent :: nat
  currentTime :: nat

text \<open>
  What the audio element does when \<^verbatim>\<open>playKonamiAudio\<close> drives it: playback starts; the
  promise returned by \<^verbatim>\<open>play()\<close> is rejected; \<^verbatim>\<open>play()\<close> (or the \<^verbatim>\<open>.catch\<close> on
  its result) throws; or the assignment to \<^verbatim>\<open>currentTime\<close> throws.
\<close>

datatype play_outcome = Plays | PlayRejects | PlayThrows | SeekThrows

text \<open>
  The trace records the console output and the calls of \<^verbatim>\<open>audio.play()\<close>. Two entries
  are bookkeeping of the model and have no counterpart statement in the source:
  \<open>MatchEvent\<close> is appended where a handler finds the sequence complete (just before
  it calls \<^verbatim>\<open>playKonamiAudio\<close>), and \<open>PressEvent b\<close> where \<^verbatim>\<open>checkButtonPress\<close>
  calls \<^verbatim>\<open>handleControllerInput(b)\<close>.
\<close>

datatype effect =
    ConsoleLog string int
  | ConsoleWarn string
  | AudioPlay
  | MatchEvent
  | PressEvent string

subsection \<open>The object and its world\<close>

record konami =
  currentSequence :: "string list"
  audio :: "audio_el option"
  hasPlayedThisSession :: bool
  gamepadIndex :: int
  previousButtonStates :: "(string \<times> jslevel) list"
  previousDpadStates :: "(string \<times> jslevel) list"
  gamepadPolling :: "nat option"
  clock :: nat
  timeouts :: "nat list"
  intervals :: "nat list"
  nextTimerId :: nat
  playOutcome :: play_outcome
  trace :: "effect list"

text \<open>
  \<open>gamepadPolling\<close> is the interval handle (\<open>None\<close> for \<^verbatim>\<open>undefined\<close> and \<^verbatim>\<open>null\<close>;
  the handles \<^verbatim>\<open>setInterval\<close> returns are positive, hence truthy). \<open>clock\<close> is the time
  in milliseconds, \<open>timeouts\<close> the deadlines of the pending callbacks that clear
  \<open>hasPlayedThisSession\<close> (the only callback the class passes to \<^verbatim>\<open>setTimeout\<close>),
  \<open>intervals\<close> the handles of the running intervals.
\<close>

definition sequence :: "string list" where
  "sequence =
     [''ArrowUp'', ''ArrowUp'', ''ArrowDown'', ''ArrowDown'',
      ''ArrowLeft'', ''ArrowRight'', ''ArrowLeft'', ''ArrowRight'',
      ''KeyB'', ''KeyA'']"

definition wasdSequence :: "string list" where
  "wasdSequence =
     [''KeyW'', ''KeyW'', ''KeyS'', ''KeyS'',
      ''KeyA'', ''KeyD'', ''KeyA'', ''KeyD'',
      ''KeyB'', ''KeyA'']"

definition controllerSequence :: "string list" where
  "controllerSequence =
     [''up'', ''up'', ''down'', ''down'',
      ''left'', ''right'', ''left'', ''right'',
      ''b'', ''a'']"

definition audioUrl :: string where
  "audioUrl = ''https://www.myinstants.com/media/sounds/lissan-al-gaib.mp3''"

definition emit :: "effect \<Rightarrow> konami \<Rightarrow> konami" where
  "emit e s = s\<lparr>trace := trace s @ [e]\<rparr>"

subsection \<open>Timers\<close>

text \<open>\<^verbatim>\<open>setTimeout(() => { this.hasPlayedThisSession = false; }, delay)\<close>\<close>

definition setTimeoutClearFlag :: "nat \<Rightarrow> konami \<Rightarrow> konami" where
  "setTimeoutClearFlag delay s =
     s\<lparr>timeouts := timeouts s @ [clock s + delay], nextTimerId := Suc (nextTimerId s)\<rparr>"

text \<open>\<^verbatim>\<open>clearInterval(h)\<close>; clearing \<^verbatim>\<open>undefined\<close> or \<^verbatim>\<open>null\<close> does nothing.\<close>

definition clearInterval :: "nat option \<Rightarrow> konami \<Rightarrow> konami" where
  "clearInterval h s =
     (case h of None \<Rightarrow> s | Some i \<Rightarrow> s\<lparr>intervals := removeAll i (intervals s)\<rparr>)"

text \<open>
  Time passing by \<open>dt\<close> milliseconds with no other event in between: every timeout whose
  deadline is reached runs its callback and is gone.
\<close>

definition elapse :: "nat \<Rightarrow> konami \<Rightarrow> konami" where
  "elapse dt s =
     (let t = clock s + dt;
          due = filter (\<lambda>d. d \<le> t) (timeouts s)
      in s\<lparr>clock := t,
           timeouts := filter (\<lambda>d. \<not> d \<le> t) (timeouts s),
           hasPlayedThisSession := (if due = [] then hasPlayedThisSession s else False)\<rparr>)"

subsection \<open>Methods\<close>

definition resetSequence :: "konami \<Rightarrow> konami" where
  "resetSequence s = s\<lparr>currentSequence := []\<rparr>"

text \<open>\<open>ok\<close> tells whether \<^verbatim>\<open>new Audio()\<close> succeeds.\<close>

definition preloadAudio :: "bool \<Rightarrow> konami \<Rightarrow> konami" where
  "preloadAudio ok s =
     (if ok then
        s\<lparr>audio := Some \<lparr>preload = ''auto'', src = audioUrl, volumePercent = 70, currentTime = 0\<rparr>\<rparr>
      else emit (ConsoleWarn ''Could not preload Konami Code audio:'') s)"

text \<open>
  The warning of a rejected \<^verbatim>\<open>play()\<close> promise is written by a callback that runs after
  the handler has returned; the model appends it at the call.
\<close>

definition playKonamiAudio :: "konami \<Rightarrow> konami" where
  "playKonamiAudio s =
     (if hasPlayedThisSession s then s
      else
        (case audio s of
           None \<Rightarrow> s
         | Some a \<Rightarrow>
            (case playOutcome s of
               SeekThrows \<Rightarrow> emit (ConsoleWarn ''Error playing Konami Code audio:'') s
             | PlayThrows \<Rightarrow>
                 emit (ConsoleWarn ''Error playing Konami Code audio:'')
                   (emit AudioPlay (s\<lparr>audio := Some (a\<lparr>currentTime := 0\<rparr>)\<rparr>))
             | PlayRejects \<Rightarrow>
                 emit (ConsoleWarn ''Could not play Konami Code audio:'')
                   (setTimeoutClearFlag 10000
                     ((emit AudioPlay (s\<lparr>audio := Some (a\<lparr>currentTime := 0\<rparr>)\<rparr>))
                        \<lparr>hasPlayedThisSession := True\<rparr>))
             | Plays \<Rightarrow>
                 setTimeoutClearFlag 10000
                   ((emit AudioPlay (s\<lparr>audio := Some (a\<lparr>currentTime := 0\<rparr>)\<rparr>))
                      \<lparr>hasPlayedThisSession := True\<rparr>))))"

definition handleKeyboardInput :: "string \<Rightarrow> konami \<Rightarrow> konami" where
  "handleKeyboardInput keyCode s =
     (if hasPlayedThisSession s then s
      else
        (let expectedKeyArrow = nth_opt sequence (length (currentSequence s));
             expectedKeyWASD = nth_opt wasdSequence (length (currentSequence s))
         in if Some keyCode = expectedKeyArrow \<or> Some keyCode = expectedKeyWASD then
              (let s1 = s\<lparr>currentSequence := currentSequence s @ [keyCode]\<rparr>
               in if length (currentSequence s1) = length sequence
                  then resetSequence (playKonamiAudio (emit MatchEvent s1))
                  else s1)
            else
              (let s1 = resetSequence s
               in if Some keyCode = nth_opt sequence 0 \<or> Some keyCode = nth_opt wasdSequence 0
                  then s1\<lparr>currentSequence := currentSequence s1 @ [keyCode]\<rparr>
                  else s1)))"

definition handleControllerInput :: "string \<Rightarrow> konami \<Rightarrow> konami" where
  "handleControllerInput input s =
     (if hasPlayedThisSession s then s
      else
        (let expectedInput = nth_opt controllerSequence (length (currentSequence s))
         in if Some input = expectedInput then
              (let s1 = s\<lparr>currentSequence := currentSequence s @ [input]\<rparr>
               in if length (currentSequence s1) = length controllerSequence
                  then resetSequence (playKonamiAudio (emit MatchEvent s1))
                  else s1)
            else
              (let s1 = resetSequence s
               in if Some input = nth_opt controllerSequence 0
                  then s1\<lparr>currentSequence := currentSequence s1 @ [input]\<rparr>
                  else s1)))"

text \<open>\<^verbatim>\<open>this.previousButtonStates[button] || false\<close>: an absent key reads \<^verbatim>\<open>undefined\<close>.\<close>

definition wasPressed :: "string \<Rightarrow> konami \<Rightarrow> bool" where
  "wasPressed button s =
     truthy (case map_of (previousButtonStates s) button of None \<Rightarrow> None | Some v \<Rightarrow> v)"

definition checkButtonPress :: "string \<Rightarrow> jslevel \<Rightarrow> konami \<Rightarrow> konami" where
  "checkButtonPress button isPressed s =
     (let s1 = (if truthy isPressed \<and> \<not> wasPressed button s
                then handleControllerInput button (emit (PressEvent button) s)
                else s)
      in s1\<lparr>previousButtonStates := AList.update button isPressed (previousButtonStates s1)\<rparr>)"

definition startGamepadPolling :: "konami \<Rightarrow> konami" where
  "startGamepadPolling s =
     (if gamepadPolling s \<noteq> None then s
      else s\<lparr>gamepadPolling := Some (nextTimerId s),
             intervals := intervals s @ [nextTimerId s],
             nextTimerId := Suc (nextTimerId s)\<rparr>)"

text \<open>\<open>gps\<close> is what \<^verbatim>\<open>navigator.getGamepads()\<close> returns at this tick.\<close>

definition pollGamepad :: "gamepad option list \<Rightarrow> konami \<Rightarrow> konami" where
  "pollGamepad gps s =
     (if gamepadIndex s = - 1 then s
      else
        (case getGamepad gps (gamepadIndex s) of
           None \<Rightarrow>
             (clearInterval (gamepadPolling s) (s\<lparr>gamepadIndex := - 1\<rparr>))\<lparr>gamepadPolling := None\<rparr>
         | Some g \<Rightarrow>
             (let dpadUp = pressedAt g 12;
                  dpadDown = pressedAt g 13;
                  dpadLeft = pressedAt g 14;
                  dpadRight = pressedAt g 15;
                  aButton = pressedAt g 0;
                  bButton = pressedAt g 1
              in checkButtonPress ''b'' bButton
                   (checkButtonPress ''a'' aButton
                     (checkButtonPress ''right'' dpadRight
                       (checkButtonPress ''left'' dpadLeft
                         (checkButtonPress ''down'' dpadDown
                           (checkButtonPress ''up'' dpadUp s))))))))"

text \<open>The loop of \<^verbatim>\<open>checkExistingGamepads\<close>, from index \<open>i\<close> over the rest of the array.\<close>

fun checkExistingGamepadsFrom :: "nat \<Rightarrow> gamepad option list \<Rightarrow> konami \<Rightarrow> konami" where
  "checkExistingGamepadsFrom i [] s = s"
| "checkExistingGamepadsFrom i (None # gs) s = checkExistingGamepadsFrom (Suc i) gs s"
| "checkExistingGamepadsFrom i (Some g # gs) s = startGamepadPolling (s\<lparr>gamepadIndex := int i\<rparr>)"

definition checkExistingGamepads :: "gamepad option list \<Rightarrow> konami \<Rightarrow> konami" where
  "checkExistingGamepads gps s = checkExistingGamepadsFrom 0 gps s"

text \<open>The two listeners registered by \<^verbatim>\<open>setupGamepadListener\<close>.\<close>

definition onGamepadConnected :: "int \<Rightarrow> konami \<Rightarrow> konami" where
  "onGamepadConnected idx s =
     startGamepadPolling ((emit (ConsoleLog ''Xbox controller connected:'' idx) s)\<lparr>gamepadIndex := idx\<rparr>)"

definition onGamepadDisconnected :: "int \<Rightarrow> konami \<Rightarrow> konami" where
  "onGamepadDisconnected idx s =
     (let s1 = emit (ConsoleLog ''Xbox controller disconnected:'' idx) s
      in if gamepadIndex s1 = idx then s1\<lparr>gamepadIndex := - 1\<rparr> else s1)"

definition setupGamepadListener :: "gamepad option list \<Rightarrow> konami \<Rightarrow> konami" where
  "setupGamepadListener gps s = checkExistingGamepads gps s"

definition init :: "bool \<Rightarrow> gamepad option list \<Rightarrow> konami \<Rightarrow> konami" where
  "init ok gps s = setupGamepadListener gps (preloadAudio ok s)"

text \<open>
  The constructor, in a world where \<^verbatim>\<open>new Audio()\<close> succeeds or not (\<open>ok\<close>), the audio
  element behaves as \<open>po\<close>, and \<^verbatim>\<open>navigator.getGamepads()\<close> returns \<open>gps\<close>.
\<close>

definition KonamiCode :: "bool \<Rightarrow> play_outcome \<Rightarrow> gamepad option list \<Rightarrow> konami" where
  "KonamiCode ok po gps =
     init ok gps
       \<lparr>currentSequence = [], audio = None, hasPlayedThisSession = False,
        gamepadIndex = - 1, previousButtonStates = [], previousDpadStates = [],
        gamepadPolling = None, clock = 0, timeouts = [], intervals = [],
        nextTimerId = 1, playOutcome = po, trace = []\<rparr>"

subsection \<open>Events\<close>

text \<open>
  What the browser delivers to the object: a key press, a controller connecting or
  disconnecting, one firing of the polling interval (which happens only while the interval
  of the stored handle is running), and time passing.
\<close>

datatype event =
    KeyDown string
  | GamepadConnected int
  | GamepadDisconnected int
  | PollTick "gamepad option list"
  | Elapse nat

fun isElapse :: "event \<Rightarrow> bool" where
  "isElapse (Elapse dt) = True"
| "isElapse e = False"

definition pollRunning :: "konami \<Rightarrow> bool" where
  "pollRunning s = (case gamepadPolling s of None \<Rightarrow> False | Some h \<Rightarrow> h \<in> set (intervals s))"

fun step :: "event \<Rightarrow> konami \<Rightarrow> konami" where
  "step (KeyDown k) s = handleKeyboardInput k s"
| "step (GamepadConnected i) s = onGamepadConnected i s"
| "step (GamepadDisconnected i) s = onGamepadDisconnected i s"
| "step (PollTick gps) s = (if pollRunning s then pollGamepad gps s else s)"
| "step (Elapse dt) s = elapse dt s"

definition run :: "event list \<Rightarrow> konami \<Rightarrow> konami" where
  "run es s = foldl (\<lambda>s e. step e s) s es"

definition feedKeys :: "string list \<Rightarrow> konami \<Rightarrow> konami" where
  "feedKeys ks s = foldl (\<lambda>s k. handleKeyboardInput k s) s ks"

definition feedButtons :: "string list \<Rightarrow> konami \<Rightarrow> konami" where
  "feedButtons bs s = foldl (\<lambda>s b. handleControllerInput b s) s bs"

definition prefixLength :: "konami \<Rightarrow> nat" where
  "prefixLength s = length (currentSequence s)"

definition countOf :: "effect \<Rightarrow> konami \<Rightarrow> nat" where
  "countOf e s = count_list (trace s) e"

text \<open>
  \<open>ks\<close> renders a prefix of the target pattern on the keyboard: at each position the
  arrow code or the WASD code of that position.
\<close>

definition isPatternPrefix :: "string list \<Rightarrow> bool" where
  "isPatternPrefix ks =
     (length ks \<le> length sequence \<and>
      list_all2 (\<lambda>k (a, w). k = a \<or> k = w) ks (take (length ks) (zip sequence wasdSequence)))"

text \<open>
  The six buttons \<^verbatim>\<open>pollGamepad\<close> samples, in the order it checks them, each with its
  index in \<^verbatim>\<open>gamepad.buttons\<close>.
\<close>

definition trackedButtons :: "(string \<times> nat) list" where
  "trackedButtons =
     [(''up'', 12), (''down'', 13), (''left'', 14), (''right'', 15), (''a'', 0), (''b'', 1)]"


text \<open>The press events recorded in the trace, oldest first.\<close>

definition pressEvents :: "konami \<Rightarrow> string list" where
  "pressEvents s = List.map_filter (\<lambda>e. case e of PressEvent b \<Rightarrow> Some b | _ \<Rightarrow> None) (trace s)"


text \<open>
  One way of entering the pattern: typed on the keyboard as the given key codes, or
  pressed on the controller (which has a single code for each symbol).
\<close>

datatype pattern_input = Typed "string list" | Pressed

fun feedPattern :: "pattern_input \<Rightarrow> konami \<Rightarrow> konami" where
  "feedPattern (Typed ks) s = feedKeys ks s"
| "feedPattern Pressed s = feedButtons controllerSequence s"

fun isFullPattern :: "pattern_input \<Rightarrow> bool" where
  "isFullPattern (Typed ks) = (isPatternPrefix ks \<and> length ks = length sequence)"
| "isFullPattern Pressed = True"

text \<open>Example inputs.\<close>

definition mixedPattern :: "string list" where
  "mixedPattern =
     [''ArrowUp'', ''KeyW'', ''ArrowDown'', ''KeyS'', ''KeyA'',
      ''ArrowRight'', ''ArrowLeft'', ''KeyD'', ''KeyB'', ''KeyA'']"

text \<open>
  A sixteen-button controller with nothing pressed, and a fresh object created while that
  controller is connected in slot 0.
\<close>

definition idlePad :: gamepad where
  "idlePad = Gamepad (replicate 16 False)"


definition withPad :: konami where
  "withPad = KonamiCode True Plays [Some idlePad]"

text \<open>The state right after the all-arrow pattern has been typed into a fresh object.\<close>

definition afterMatch :: konami where
  "afterMatch = feedKeys sequence (KonamiCode True Plays [])"

section \<open>Properties\<close>

subsection \<open>The three sequences and the renderings of the pattern\<close>

lemma length_sequence: "length sequence = 10" by (simp add: sequence_def)
lemma length_wasdSequence: "length wasdSequence = 10" by (simp add: wasdSequence_def)
lemma length_controllerSequence: "length controllerSequence = 10" by (simp add: controllerSequence_def)

lemma isPatternPrefix_iff:
  "isPatternPrefix ks \<longleftrightarrow>
     length ks \<le> 10 \<and> (\<forall>i<length ks. ks ! i = sequence ! i \<or> ks ! i = wasdSequence ! i)"
  by (auto simp: isPatternPrefix_def list_all2_conv_all_nth length_sequence length_wasdSequence)

lemma isPatternPrefix_nth:
  "isPatternPrefix ks \<Longrightarrow> i < length ks \<Longrightarrow> ks ! i = sequence ! i \<or> ks ! i = wasdSequence ! i"
  by (simp add: isPatternPrefix_iff)

lemma isPatternPrefix_butlast:
  assumes "isPatternPrefix (ks @ [k])"
  shows "isPatternPrefix ks"
proof -
  have n: "ks ! i = sequence ! i \<or> ks ! i = wasdSequence ! i" if "i < length ks" for i
    using isPatternPrefix_nth [OF assms, of i] that by (simp add: nth_append)
  have "length ks \<le> 10" using assms by (simp add: isPatternPrefix_iff)
  with n show ?thesis by (simp add: isPatternPrefix_iff)
qed

lemma kb_advance:
  assumes "\<not> hasPlayedThisSession s" "length (currentSequence s) = i" "i < 9"
    "k = sequence ! i \<or> k = wasdSequence ! i"
  shows "handleKeyboardInput k s = s\<lparr>currentSequence := currentSequence s @ [k]\<rparr>"
  using assms
  by (auto simp: handleKeyboardInput_def nth_opt_def length_sequence length_wasdSequence Let_def)

lemma kb_complete:
  assumes "\<not> hasPlayedThisSession s" "length (currentSequence s) = 9"
    "k = sequence ! 9 \<or> k = wasdSequence ! 9"
  shows "handleKeyboardInput k s =
     resetSequence (playKonamiAudio (emit MatchEvent (s\<lparr>currentSequence := currentSequence s @ [k]\<rparr>)))"
  using assms
  by (auto simp: handleKeyboardInput_def nth_opt_def length_sequence length_wasdSequence Let_def)

lemma feedKeys_snoc: "feedKeys (ks @ [k]) s = handleKeyboardInput k (feedKeys ks s)"
  by (simp add: feedKeys_def)

lemma feedKeys_prefix:
  "currentSequence s = [] \<Longrightarrow> \<not> hasPlayedThisSession s \<Longrightarrow> isPatternPrefix ks \<Longrightarrow> length ks < 10
   \<Longrightarrow> feedKeys ks s = s\<lparr>currentSequence := ks\<rparr>"
proof (induction ks rule: rev_induct)
  case Nil
  then show ?case by (simp add: feedKeys_def)
next
  case (snoc k ks)
  have p: "isPatternPrefix ks" using snoc.prems(3) by (rule isPatternPrefix_butlast)
  have l: "length ks < 9" using snoc.prems(4) by simp
  have ih: "feedKeys ks s = s\<lparr>currentSequence := ks\<rparr>"
    using snoc.IH snoc.prems(1,2) p l by simp
  have k: "k = sequence ! length ks \<or> k = wasdSequence ! length ks"
    using isPatternPrefix_nth [OF snoc.prems(3), of "length ks"] by simp
  show ?case
    unfolding feedKeys_snoc ih
    using kb_advance [of "s\<lparr>currentSequence := ks\<rparr>" "length ks" k] snoc.prems(2) l k
    by simp
qed

lemma trace_playKonamiAudio_count:
  "countOf MatchEvent (playKonamiAudio s) = countOf MatchEvent s"
  by (simp add: playKonamiAudio_def countOf_def emit_def setTimeoutClearFlag_def
      split: option.splits play_outcome.splits)

lemma feedKeys_full:
  assumes "currentSequence s = []" "\<not> hasPlayedThisSession s" "isPatternPrefix ks" "length ks = 10"
  shows "feedKeys ks s = resetSequence (playKonamiAudio (emit MatchEvent (s\<lparr>currentSequence := ks\<rparr>)))"
proof -
  obtain ks' k where ks: "ks = ks' @ [k]"
    using assms(4) by (cases ks rule: rev_cases) auto
  have p: "isPatternPrefix ks'" using assms(3) unfolding ks by (rule isPatternPrefix_butlast)
  have l: "length ks' = 9" using assms(4) ks by simp
  have ih: "feedKeys ks' s = s\<lparr>currentSequence := ks'\<rparr>"
    using feedKeys_prefix [OF assms(1,2) p] l by simp
  have k: "k = sequence ! 9 \<or> k = wasdSequence ! 9"
    using isPatternPrefix_nth [OF assms(3), of 9] ks l by (simp add: nth_append)
  show ?thesis
    unfolding ks feedKeys_snoc ih
    using kb_complete [of "s\<lparr>currentSequence := ks'\<rparr>" k] assms(2) l k
    by simp
qed


lemma reset_play_currentSequence:
  "resetSequence (playKonamiAudio (emit e (s\<lparr>currentSequence := ks\<rparr>))) =
   resetSequence (playKonamiAudio (emit e s))"
  by (simp add: resetSequence_def playKonamiAudio_def emit_def setTimeoutClearFlag_def
      split: option.splits play_outcome.splits)

text \<open>
  C2. From an empty match state with suppression off, feeding a proper prefix of the
  pattern, each symbol by its arrow code or its WASD code, only stores the keys: the
  prefix length is the number of keys fed and the trace is unchanged, so no match has
  fired. Feeding all ten symbols records exactly one match, leaves the prefix length at 0,
  and ends in the same state as the all-arrow sequence.
\<close>

theorem keyboard_pattern_prefix_and_match:
  assumes "currentSequence s = []" "\<not> hasPlayedThisSession s" "isPatternPrefix ks"
  shows "(length ks < 10 \<longrightarrow>
            feedKeys ks s = s\<lparr>currentSequence := ks\<rparr> \<and>
            prefixLength (feedKeys ks s) = length ks \<and>
            trace (feedKeys ks s) = trace s) \<and>
         (length ks = 10 \<longrightarrow>
            prefixLength (feedKeys ks s) = 0 \<and>
            countOf MatchEvent (feedKeys ks s) = countOf MatchEvent s + 1 \<and>
            feedKeys ks s = feedKeys sequence s)"
proof (intro conjI impI)
  assume l: "length ks < 10"
  show e: "feedKeys ks s = s\<lparr>currentSequence := ks\<rparr>"
    using feedKeys_prefix [OF assms l] .
  show "prefixLength (feedKeys ks s) = length ks" by (simp add: e prefixLength_def)
  show "trace (feedKeys ks s) = trace s" by (simp add: e)
next
  assume l: "length ks = 10"
  have e: "feedKeys ks s = resetSequence (playKonamiAudio (emit MatchEvent s))"
    using feedKeys_full [OF assms l] by (simp add: reset_play_currentSequence)
  show "prefixLength (feedKeys ks s) = 0" by (simp add: e prefixLength_def resetSequence_def)
  have "countOf MatchEvent (feedKeys ks s) = countOf MatchEvent (emit MatchEvent s)"
    using trace_playKonamiAudio_count [of "emit MatchEvent s"]
    by (simp add: e countOf_def resetSequence_def)
  then show "countOf MatchEvent (feedKeys ks s) = countOf MatchEvent s + 1"
    by (simp add: countOf_def emit_def)
  have "isPatternPrefix sequence"
    by (simp add: isPatternPrefix_iff length_sequence)
  then have "feedKeys sequence s = resetSequence (playKonamiAudio (emit MatchEvent s))"
    using feedKeys_full [OF assms(1,2), of sequence]
    by (simp add: reset_play_currentSequence length_sequence)
  then show "feedKeys ks s = feedKeys sequence s" using e by simp
qed

theorem keyboard_pattern_prefix_and_match_witness:
  "currentSequence (KonamiCode True Plays []) = [] \<and>
   \<not> hasPlayedThisSession (KonamiCode True Plays []) \<and>
   isPatternPrefix mixedPattern \<and>
   prefixLength (feedKeys mixedPattern
                   (KonamiCode True Plays [])) = 0 \<and>
   countOf MatchEvent (feedKeys mixedPattern
                   (KonamiCode True Plays [])) = 1"
proof -
  have h1: "currentSequence (KonamiCode True Plays []) = []" by code_simp
  have h2: "\<not> hasPlayedThisSession (KonamiCode True Plays [])" by code_simp
  have h3: "isPatternPrefix mixedPattern" by code_simp
  have c: "countOf MatchEvent (KonamiCode True Plays []) = 0" by code_simp
  have l: "length mixedPattern = 10" by (simp add: mixedPattern_def)
  from keyboard_pattern_prefix_and_match [OF h1 h2 h3] l
  have r: "prefixLength (feedKeys mixedPattern
                   (KonamiCode True Plays [])) = 0"
     "countOf MatchEvent (feedKeys mixedPattern
                   (KonamiCode True Plays [])) = countOf MatchEvent (KonamiCode True Plays []) + 1"
    by blast+
  show ?thesis using h1 h2 h3 r c by simp
qed

subsection \<open>The mismatch branch\<close>

lemma kb_mismatch:
  assumes "\<not> hasPlayedThisSession s"
    "Some k \<noteq> nth_opt sequence (prefixLength s)" "Some k \<noteq> nth_opt wasdSequence (prefixLength s)"
  shows "handleKeyboardInput k s =
           s\<lparr>currentSequence := (if k = ''ArrowUp'' \<or> k = ''KeyW'' then [k] else [])\<rparr>"
  using assms
  by (simp add: handleKeyboardInput_def prefixLength_def resetSequence_def Let_def)
     (simp add: nth_opt_def sequence_def wasdSequence_def)

lemma ctl_mismatch:
  assumes "\<not> hasPlayedThisSession s"
    "Some b \<noteq> nth_opt controllerSequence (prefixLength s)"
  shows "handleControllerInput b s =
           s\<lparr>currentSequence := (if b = ''up'' then [b] else [])\<rparr>"
  using assms
  by (simp add: handleControllerInput_def prefixLength_def resetSequence_def Let_def)
     (simp add: nth_opt_def controllerSequence_def)

lemma kb_first:
  assumes "\<not> hasPlayedThisSession s" "currentSequence s = []" "u = ''ArrowUp'' \<or> u = ''KeyW''"
  shows "handleKeyboardInput u s = s\<lparr>currentSequence := [u]\<rparr>"
  using kb_advance [of s 0 u] assms by (auto simp: sequence_def wasdSequence_def)

lemma kb_second:
  assumes "\<not> hasPlayedThisSession s" "length (currentSequence s) = 1" "u = ''ArrowUp'' \<or> u = ''KeyW''"
  shows "handleKeyboardInput u s = s\<lparr>currentSequence := currentSequence s @ [u]\<rparr>"
  using kb_advance [of s 1 u] assms by (auto simp: sequence_def wasdSequence_def)

text \<open>
  C5. With suppression off, a key that is neither the arrow code nor the WASD code expected
  at the current position empties the stored sequence and then, when the key is the first
  symbol of the pattern (\<open>ArrowUp\<close> or \<open>KeyW\<close>), stores it as a fresh attempt of length 1;
  nothing else in the state changes. The controller handler does the same with \<open>up\<close>.
  From the empty state: UP, LEFT gives 0; UP, DOWN gives 0; UP, UP gives 2; UP, UP, UP gives 1.
\<close>

theorem mismatch_resets_then_restarts:
  assumes "\<not> hasPlayedThisSession s"
  shows "(Some k \<noteq> nth_opt sequence (prefixLength s) \<and>
          Some k \<noteq> nth_opt wasdSequence (prefixLength s) \<longrightarrow>
            handleKeyboardInput k s =
              s\<lparr>currentSequence := (if k = ''ArrowUp'' \<or> k = ''KeyW'' then [k] else [])\<rparr>) \<and>
         (Some b \<noteq> nth_opt controllerSequence (prefixLength s) \<longrightarrow>
            handleControllerInput b s =
              s\<lparr>currentSequence := (if b = ''up'' then [b] else [])\<rparr>) \<and>
         (currentSequence s = [] \<and>
          u1 \<in> {''ArrowUp'', ''KeyW''} \<and> u2 \<in> {''ArrowUp'', ''KeyW''} \<and>
          u3 \<in> {''ArrowUp'', ''KeyW''} \<and>
          l \<in> {''ArrowLeft'', ''KeyA''} \<and> d \<in> {''ArrowDown'', ''KeyS''} \<longrightarrow>
            prefixLength (feedKeys [u1, l] s) = 0 \<and>
            prefixLength (feedKeys [u1, d] s) = 0 \<and>
            prefixLength (feedKeys [u1, u2] s) = 2 \<and>
            prefixLength (feedKeys [u1, u2, u3] s) = 1)"
proof (intro conjI impI)
  assume "Some k \<noteq> nth_opt sequence (prefixLength s) \<and>
          Some k \<noteq> nth_opt wasdSequence (prefixLength s)"
  then show "handleKeyboardInput k s =
              s\<lparr>currentSequence := (if k = ''ArrowUp'' \<or> k = ''KeyW'' then [k] else [])\<rparr>"
    using kb_mismatch [OF assms] by blast
next
  assume "Some b \<noteq> nth_opt controllerSequence (prefixLength s)"
  then show "handleControllerInput b s =
              s\<lparr>currentSequence := (if b = ''up'' then [b] else [])\<rparr>"
    using ctl_mismatch [OF assms] by blast
next
  assume a: "currentSequence s = [] \<and>
          u1 \<in> {''ArrowUp'', ''KeyW''} \<and> u2 \<in> {''ArrowUp'', ''KeyW''} \<and>
          u3 \<in> {''ArrowUp'', ''KeyW''} \<and>
          l \<in> {''ArrowLeft'', ''KeyA''} \<and> d \<in> {''ArrowDown'', ''KeyS''}"
  have s1: "handleKeyboardInput u1 s = s\<lparr>currentSequence := [u1]\<rparr>"
    using kb_first [OF assms] a by simp
  have s2: "handleKeyboardInput u2 (s\<lparr>currentSequence := [u1]\<rparr>) = s\<lparr>currentSequence := [u1, u2]\<rparr>"
    using kb_second [of "s\<lparr>currentSequence := [u1]\<rparr>" u2] assms a by simp
  have ml: "handleKeyboardInput l (s\<lparr>currentSequence := [u1]\<rparr>) = s\<lparr>currentSequence := []\<rparr>"
    using kb_mismatch [of "s\<lparr>currentSequence := [u1]\<rparr>" l] assms a
    by (auto simp: prefixLength_def nth_opt_def sequence_def wasdSequence_def)
  have md: "handleKeyboardInput d (s\<lparr>currentSequence := [u1]\<rparr>) = s\<lparr>currentSequence := []\<rparr>"
    using kb_mismatch [of "s\<lparr>currentSequence := [u1]\<rparr>" d] assms a
    by (auto simp: prefixLength_def nth_opt_def sequence_def wasdSequence_def)
  have m3: "handleKeyboardInput u3 (s\<lparr>currentSequence := [u1, u2]\<rparr>) = s\<lparr>currentSequence := [u3]\<rparr>"
    using kb_mismatch [of "s\<lparr>currentSequence := [u1, u2]\<rparr>" u3] assms a
    by (auto simp: prefixLength_def nth_opt_def sequence_def wasdSequence_def)
  show "prefixLength (feedKeys [u1, l] s) = 0"
    by (simp add: feedKeys_def s1 ml prefixLength_def)
  show "prefixLength (feedKeys [u1, d] s) = 0"
    by (simp add: feedKeys_def s1 md prefixLength_def)
  show "prefixLength (feedKeys [u1, u2] s) = 2"
    by (simp add: feedKeys_def s1 s2 prefixLength_def)
  show "prefixLength (feedKeys [u1, u2, u3] s) = 1"
    by (simp add: feedKeys_def s1 s2 m3 prefixLength_def)
qed

theorem mismatch_resets_then_restarts_witness:
  "\<not> hasPlayedThisSession (KonamiCode True Plays []) \<and>
   Some ''ArrowLeft'' \<noteq> nth_opt sequence (prefixLength (KonamiCode True Plays [])) \<and>
   Some ''ArrowLeft'' \<noteq> nth_opt wasdSequence (prefixLength (KonamiCode True Plays [])) \<and>
   Some ''a'' \<noteq> nth_opt controllerSequence (prefixLength (KonamiCode True Plays [])) \<and>
   currentSequence (handleKeyboardInput ''ArrowLeft'' (KonamiCode True Plays [])) = [] \<and>
   currentSequence (handleControllerInput ''a'' (KonamiCode True Plays [])) = [] \<and>
   prefixLength (feedKeys [''ArrowUp'', ''ArrowLeft''] (KonamiCode True Plays [])) = 0 \<and>
   prefixLength (feedKeys [''ArrowUp'', ''ArrowDown''] (KonamiCode True Plays [])) = 0 \<and>
   prefixLength (feedKeys [''ArrowUp'', ''ArrowUp'', ''ArrowUp''] (KonamiCode True Plays [])) = 1"
proof -
  have h: "\<not> hasPlayedThisSession (KonamiCode True Plays [])" by code_simp
  have c: "currentSequence (KonamiCode True Plays []) = []" by code_simp
  have k: "Some ''ArrowLeft'' \<noteq> nth_opt sequence (prefixLength (KonamiCode True Plays []))"
    "Some ''ArrowLeft'' \<noteq> nth_opt wasdSequence (prefixLength (KonamiCode True Plays []))"
    "Some ''a'' \<noteq> nth_opt controllerSequence (prefixLength (KonamiCode True Plays []))"
    by (simp_all add: prefixLength_def c nth_opt_def sequence_def wasdSequence_def
        controllerSequence_def)
  show ?thesis
    using mismatch_resets_then_restarts [OF h, of "''ArrowLeft''" "''a''" "''ArrowUp''"
        "''ArrowUp''" "''ArrowUp''" "''ArrowLeft''" "''ArrowDown''"] h c k
    by simp
qed

subsection \<open>Suppression\<close>

lemma feedKeys_suppressed: "hasPlayedThisSession s \<Longrightarrow> feedKeys ks s = s"
  by (induction ks rule: rev_induct) (simp_all add: feedKeys_def handleKeyboardInput_def)

lemma feedButtons_suppressed: "hasPlayedThisSession s \<Longrightarrow> feedButtons bs s = s"
  by (induction bs rule: rev_induct) (simp_all add: feedButtons_def handleControllerInput_def)

lemma afterMatch_eq:
  "afterMatch =
     \<lparr>currentSequence = [],
      audio = Some \<lparr>preload = ''auto'', src = audioUrl, volumePercent = 70, currentTime = 0\<rparr>,
      hasPlayedThisSession = True, gamepadIndex = - 1, previousButtonStates = [],
      previousDpadStates = [], gamepadPolling = None, clock = 0, timeouts = [10000],
      intervals = [], nextTimerId = 2, playOutcome = Plays, trace = [MatchEvent, AudioPlay]\<rparr>"
  by code_simp

text \<open>
  C3, as stated, fails: in the state reached by one full match (suppression on) the first
  three symbols of the pattern leave the prefix length at 0, not 3, and a second full
  pattern leaves the number of recorded matches at 1.
\<close>

theorem suppressed_input_updates_state_counterexample:
  "hasPlayedThisSession afterMatch \<and>
   prefixLength (feedKeys [''ArrowUp'', ''ArrowUp'', ''ArrowDown''] afterMatch) \<noteq> 3 \<and>
   prefixLength (feedKeys [''ArrowUp'', ''ArrowUp'', ''ArrowDown''] afterMatch) = 0 \<and>
   countOf MatchEvent afterMatch = 1 \<and>
   countOf MatchEvent (feedKeys sequence afterMatch) \<noteq> 2 \<and>
   countOf MatchEvent (feedKeys sequence afterMatch) = 1 \<and>
   countOf MatchEvent (feedButtons controllerSequence afterMatch) = 1"
proof -
  have h: "hasPlayedThisSession afterMatch" by (simp add: afterMatch_eq)
  have c: "countOf MatchEvent afterMatch = 1" "prefixLength afterMatch = 0"
    by (simp_all add: afterMatch_eq countOf_def prefixLength_def)
  show ?thesis
    using h c by (simp add: feedKeys_suppressed feedButtons_suppressed)
qed

text \<open>
  C3, amended. While the suppression flag is set, both handlers return at once: a key or
  a controller press changes nothing in the state, so the prefix is not advanced, no match
  is recorded, and \<open>playKonamiAudio\<close> (were it called) does nothing either.
\<close>

theorem suppressed_input_is_ignored:
  assumes "hasPlayedThisSession s"
  shows "handleKeyboardInput k s = s \<and> handleControllerInput b s = s \<and>
         feedKeys ks s = s \<and> feedButtons bs s = s \<and> playKonamiAudio s = s"
  using assms
  by (simp add: feedKeys_suppressed feedButtons_suppressed handleKeyboardInput_def
      handleControllerInput_def playKonamiAudio_def)

theorem suppressed_input_is_ignored_witness:
  "hasPlayedThisSession afterMatch \<and>
   handleKeyboardInput ''ArrowUp'' afterMatch = afterMatch \<and>
   handleControllerInput ''up'' afterMatch = afterMatch \<and>
   feedKeys sequence afterMatch = afterMatch \<and>
   feedButtons controllerSequence afterMatch = afterMatch \<and>
   playKonamiAudio afterMatch = afterMatch"
proof -
  have h: "hasPlayedThisSession afterMatch" by (simp add: afterMatch_eq)
  show ?thesis
    using suppressed_input_is_ignored [OF h, of "''ArrowUp''" "''up''" sequence controllerSequence] h
    by simp
qed

subsection \<open>One match state for both devices\<close>

lemma kb_prefixLength:
  assumes "\<not> hasPlayedThisSession s"
  shows "prefixLength (handleKeyboardInput k s) =
           (if Some k = nth_opt sequence (prefixLength s) \<or>
               Some k = nth_opt wasdSequence (prefixLength s)
            then (if prefixLength s + 1 = 10 then 0 else prefixLength s + 1)
            else if k = ''ArrowUp'' \<or> k = ''KeyW'' then 1 else 0)"
proof (cases "Some k = nth_opt sequence (prefixLength s) \<or>
               Some k = nth_opt wasdSequence (prefixLength s)")
  case True
  then show ?thesis
    using assms
    by (simp add: handleKeyboardInput_def prefixLength_def Let_def length_sequence
        resetSequence_def)
next
  case False
  then show ?thesis
    using kb_mismatch [OF assms, of k] by (simp add: prefixLength_def)
qed

lemma ctl_prefixLength:
  assumes "\<not> hasPlayedThisSession s"
  shows "prefixLength (handleControllerInput b s) =
           (if Some b = nth_opt controllerSequence (prefixLength s)
            then (if prefixLength s + 1 = 10 then 0 else prefixLength s + 1)
            else if b = ''up'' then 1 else 0)"
proof (cases "Some b = nth_opt controllerSequence (prefixLength s)")
  case True
  then show ?thesis
    using assms
    by (simp add: handleControllerInput_def prefixLength_def Let_def length_controllerSequence
        resetSequence_def)
next
  case False
  then show ?thesis
    using ctl_mismatch [OF assms, of b] by (simp add: prefixLength_def)
qed

lemma fresh_eq:
  "KonamiCode True Plays [] =
     \<lparr>currentSequence = [],
      audio = Some \<lparr>preload = ''auto'', src = audioUrl, volumePercent = 70, currentTime = 0\<rparr>,
      hasPlayedThisSession = False, gamepadIndex = - 1, previousButtonStates = [],
      previousDpadStates = [], gamepadPolling = None, clock = 0, timeouts = [],
      intervals = [], nextTimerId = 1, playOutcome = Plays, trace = []\<rparr>"
  by code_simp

text \<open>
  C1, as stated, fails: after one \<open>ArrowUp\<close> on the keyboard the prefix length is 1; a
  controller \<open>down\<close> then resets it to 0 and a controller \<open>up\<close> advances it to 2. The
  other way round, after a controller \<open>up\<close> a keyboard \<open>ArrowDown\<close> resets the prefix and
  a keyboard \<open>ArrowUp\<close> advances it. Five keys followed by five controller presses
  complete a match.
\<close>

theorem channels_independent_counterexample:
  "prefixLength (handleKeyboardInput ''ArrowUp'' (KonamiCode True Plays [])) = 1 \<and>
   prefixLength (handleControllerInput ''down''
      (handleKeyboardInput ''ArrowUp'' (KonamiCode True Plays []))) = 0 \<and>
   prefixLength (handleControllerInput ''up''
      (handleKeyboardInput ''ArrowUp'' (KonamiCode True Plays []))) = 2 \<and>
   prefixLength (handleControllerInput ''up'' (KonamiCode True Plays [])) = 1 \<and>
   prefixLength (handleKeyboardInput ''ArrowDown''
      (handleControllerInput ''up'' (KonamiCode True Plays []))) = 0 \<and>
   prefixLength (handleKeyboardInput ''ArrowUp''
      (handleControllerInput ''up'' (KonamiCode True Plays []))) = 2 \<and>
   countOf MatchEvent
     (feedButtons [''right'', ''left'', ''right'', ''b'', ''a'']
       (feedKeys [''ArrowUp'', ''ArrowUp'', ''ArrowDown'', ''ArrowDown'', ''ArrowLeft'']
         (KonamiCode True Plays []))) = 1"
  unfolding fresh_eq by code_simp

text \<open>
  C1, amended. Keyboard and controller presses advance and reset one shared match state,
  the single list \<open>currentSequence\<close>. With suppression off, each handler maps the shared
  prefix length to the next one by its own sequence, whichever device supplied the symbols
  stored so far: a press that is the symbol expected at the shared length extends the
  prefix (to 0 again on the tenth symbol), any other press resets it, to 1 when the press
  is the first symbol of the pattern and to 0 otherwise.
\<close>

theorem channels_share_one_prefix:
  assumes "\<not> hasPlayedThisSession s"
  shows "prefixLength (handleKeyboardInput k s) =
           (if Some k = nth_opt sequence (prefixLength s) \<or>
               Some k = nth_opt wasdSequence (prefixLength s)
            then (if prefixLength s + 1 = 10 then 0 else prefixLength s + 1)
            else if k = ''ArrowUp'' \<or> k = ''KeyW'' then 1 else 0) \<and>
         prefixLength (handleControllerInput b s) =
           (if Some b = nth_opt controllerSequence (prefixLength s)
            then (if prefixLength s + 1 = 10 then 0 else prefixLength s + 1)
            else if b = ''up'' then 1 else 0)"
  using kb_prefixLength [OF assms] ctl_prefixLength [OF assms] by simp

theorem channels_share_one_prefix_witness:
  "\<not> hasPlayedThisSession (handleKeyboardInput ''ArrowUp'' (KonamiCode True Plays [])) \<and>
   prefixLength (handleKeyboardInput ''ArrowUp'' (KonamiCode True Plays [])) = 1 \<and>
   prefixLength (handleKeyboardInput ''KeyW''
      (handleKeyboardInput ''ArrowUp'' (KonamiCode True Plays []))) = 2 \<and>
   prefixLength (handleControllerInput ''up''
      (handleKeyboardInput ''ArrowUp'' (KonamiCode True Plays []))) = 2"
proof -
  have h: "\<not> hasPlayedThisSession (handleKeyboardInput ''ArrowUp'' (KonamiCode True Plays []))"
    unfolding fresh_eq by code_simp
  have p: "prefixLength (handleKeyboardInput ''ArrowUp'' (KonamiCode True Plays [])) = 1"
    unfolding fresh_eq by code_simp
  show ?thesis
    using channels_share_one_prefix [OF h, of "''KeyW''" "''up''"] h p
    by (simp add: nth_opt_def sequence_def wasdSequence_def controllerSequence_def)
qed

subsection \<open>The playback gate and the cooldown\<close>

lemma playKonamiAudio_started:
  assumes "\<not> hasPlayedThisSession s" "audio s \<noteq> None"
    "playOutcome s = Plays \<or> playOutcome s = PlayRejects"
  shows "hasPlayedThisSession (playKonamiAudio s)"
    and "timeouts (playKonamiAudio s) = timeouts s @ [clock s + 10000]"
    and "countOf AudioPlay (playKonamiAudio s) = countOf AudioPlay s + 1"
    and "clock (playKonamiAudio s) = clock s"
    and "playOutcome (playKonamiAudio s) = playOutcome s"
    and "audio (playKonamiAudio s) \<noteq> None"
    and "currentSequence (playKonamiAudio s) = currentSequence s"
  using assms
  by (auto simp: playKonamiAudio_def emit_def setTimeoutClearFlag_def countOf_def)

lemma elapse_fields:
  "clock (elapse dt s) = clock s + dt"
  "currentSequence (elapse dt s) = currentSequence s"
  "audio (elapse dt s) = audio s"
  "playOutcome (elapse dt s) = playOutcome s"
  "trace (elapse dt s) = trace s"
  "gamepadIndex (elapse dt s) = gamepadIndex s"
  "previousButtonStates (elapse dt s) = previousButtonStates s"
  "gamepadPolling (elapse dt s) = gamepadPolling s"
  "intervals (elapse dt s) = intervals s"
  by (simp_all add: elapse_def Let_def)

lemma elapse_before:
  assumes "timeouts s = [d]" "clock s + dt < d"
  shows "timeouts (elapse dt s) = [d]"
    and "hasPlayedThisSession (elapse dt s) = hasPlayedThisSession s"
  using assms by (simp_all add: elapse_def Let_def)

lemma elapse_after:
  assumes "timeouts s = [d]" "d \<le> clock s + dt"
  shows "timeouts (elapse dt s) = []"
    and "\<not> hasPlayedThisSession (elapse dt s)"
  using assms by (simp_all add: elapse_def Let_def)


lemma pollGamepad_present:
  assumes "gamepadIndex s \<noteq> - 1" "getGamepad gps (gamepadIndex s) = Some g"
  shows "pollGamepad gps s =
           foldl (\<lambda>s (b, i). checkButtonPress b (pressedAt g i) s) s trackedButtons"
  using assms by (simp add: pollGamepad_def trackedButtons_def Let_def)

lemma checkButtonPress_suppressed:
  assumes "hasPlayedThisSession s"
  shows "hasPlayedThisSession (checkButtonPress b v s)"
    and "timeouts (checkButtonPress b v s) = timeouts s"
    and "countOf AudioPlay (checkButtonPress b v s) = countOf AudioPlay s"
  using assms
  by (simp_all add: checkButtonPress_def handleControllerInput_def emit_def countOf_def Let_def)

lemma checkButtons_suppressed:
  assumes "hasPlayedThisSession s"
  shows "hasPlayedThisSession (foldl (\<lambda>s (b, i). checkButtonPress b (f i) s) s bs) \<and>
         timeouts (foldl (\<lambda>s (b, i). checkButtonPress b (f i) s) s bs) = timeouts s \<and>
         countOf AudioPlay (foldl (\<lambda>s (b, i). checkButtonPress b (f i) s) s bs) =
           countOf AudioPlay s"
  using assms
proof (induction bs arbitrary: s)
  case Nil
  then show ?case by simp
next
  case (Cons x bs)
  obtain b i where x: "x = (b, i)" by (cases x)
  show ?case
    using Cons.IH [of "checkButtonPress b (f i) s"] checkButtonPress_suppressed [OF Cons.prems, of b "f i"]
    by (simp add: x)
qed

lemma pollGamepad_suppressed:
  assumes "hasPlayedThisSession s"
  shows "hasPlayedThisSession (pollGamepad gps s) \<and>
         timeouts (pollGamepad gps s) = timeouts s \<and>
         countOf AudioPlay (pollGamepad gps s) = countOf AudioPlay s"
proof (cases "gamepadIndex s = - 1")
  case True
  then show ?thesis using assms by (simp add: pollGamepad_def)
next
  case False
  show ?thesis
  proof (cases "getGamepad gps (gamepadIndex s)")
    case None
    then show ?thesis
      using assms False
      by (simp add: pollGamepad_def clearInterval_def countOf_def split: option.splits)
  next
    case (Some g)
    show ?thesis
      unfolding pollGamepad_present [OF False Some]
      using checkButtons_suppressed [OF assms, of "pressedAt g" trackedButtons] .
  qed
qed

lemma step_suppressed:
  assumes "hasPlayedThisSession s" "\<forall>dt. e \<noteq> Elapse dt"
  shows "hasPlayedThisSession (step e s) \<and> timeouts (step e s) = timeouts s \<and>
         countOf AudioPlay (step e s) = countOf AudioPlay s"
proof (cases e)
  case (KeyDown k)
  then show ?thesis using assms(1) by (simp add: handleKeyboardInput_def)
next
  case (GamepadConnected i)
  then show ?thesis
    using assms(1)
    by (simp add: onGamepadConnected_def startGamepadPolling_def emit_def countOf_def)
next
  case (GamepadDisconnected i)
  then show ?thesis
    using assms(1) by (simp add: onGamepadDisconnected_def emit_def countOf_def Let_def)
next
  case (PollTick gps)
  then show ?thesis using pollGamepad_suppressed [OF assms(1)] assms(1) by simp
next
  case (Elapse dt)
  then show ?thesis using assms(2) by simp
qed

lemma playKonamiAudio_prefix: "prefix (timeouts s) (timeouts (playKonamiAudio s))"
  by (simp add: playKonamiAudio_def emit_def setTimeoutClearFlag_def
      split: option.splits play_outcome.splits)

lemma handleKeyboardInput_prefix: "prefix (timeouts s) (timeouts (handleKeyboardInput k s))"
  using playKonamiAudio_prefix [of "emit MatchEvent (s\<lparr>currentSequence := currentSequence s @ [k]\<rparr>)"]
  by (simp add: handleKeyboardInput_def resetSequence_def Let_def emit_def)

lemma handleControllerInput_prefix: "prefix (timeouts s) (timeouts (handleControllerInput b s))"
  using playKonamiAudio_prefix [of "emit MatchEvent (s\<lparr>currentSequence := currentSequence s @ [b]\<rparr>)"]
  by (simp add: handleControllerInput_def resetSequence_def Let_def emit_def)

lemma checkButtonPress_prefix: "prefix (timeouts s) (timeouts (checkButtonPress b v s))"
  using handleControllerInput_prefix [of "emit (PressEvent b) s" b]
  by (simp add: checkButtonPress_def Let_def emit_def)

lemma checkButtons_prefix:
  "prefix (timeouts s) (timeouts (foldl (\<lambda>s (b, i). checkButtonPress b (f i) s) s bs))"
proof (induction bs arbitrary: s)
  case Nil
  then show ?case by simp
next
  case (Cons x bs)
  obtain b i where x: "x = (b, i)" by (cases x)
  show ?case
    using Cons.IH [of "checkButtonPress b (f i) s"] checkButtonPress_prefix [of s b "f i"]
    by (simp add: x)
qed

lemma pollGamepad_prefix: "prefix (timeouts s) (timeouts (pollGamepad gps s))"
proof (cases "gamepadIndex s = - 1")
  case True
  then show ?thesis by (simp add: pollGamepad_def)
next
  case False
  show ?thesis
  proof (cases "getGamepad gps (gamepadIndex s)")
    case None
    then show ?thesis
      using False by (simp add: pollGamepad_def clearInterval_def split: option.splits)
  next
    case (Some g)
    show ?thesis
      unfolding pollGamepad_present [OF False Some] by (rule checkButtons_prefix)
  qed
qed

lemma step_timeouts_prefix:
  assumes "\<forall>dt. e \<noteq> Elapse dt"
  shows "prefix (timeouts s) (timeouts (step e s))"
proof (cases e)
  case (KeyDown k)
  then show ?thesis by (simp add: handleKeyboardInput_prefix)
next
  case (GamepadConnected i)
  then show ?thesis by (simp add: onGamepadConnected_def startGamepadPolling_def emit_def)
next
  case (GamepadDisconnected i)
  then show ?thesis by (simp add: onGamepadDisconnected_def emit_def Let_def)
next
  case (PollTick gps)
  then show ?thesis by (simp add: pollGamepad_prefix)
next
  case (Elapse dt)
  then show ?thesis using assms by simp
qed


lemma noAudio_eq:
  "KonamiCode False po [] =
     \<lparr>currentSequence = [], audio = None,
      hasPlayedThisSession = False, gamepadIndex = - 1, previousButtonStates = [],
      previousDpadStates = [], gamepadPolling = None, clock = 0, timeouts = [],
      intervals = [], nextTimerId = 1, playOutcome = po,
      trace = [ConsoleWarn ''Could not preload Konami Code audio:'']\<rparr>"
  by (simp add: KonamiCode_def init_def setupGamepadListener_def checkExistingGamepads_def
      preloadAudio_def emit_def)

lemma withAudio_eq:
  "KonamiCode True po [] =
     \<lparr>currentSequence = [],
      audio = Some \<lparr>preload = ''auto'', src = audioUrl, volumePercent = 70, currentTime = 0\<rparr>,
      hasPlayedThisSession = False, gamepadIndex = - 1, previousButtonStates = [],
      previousDpadStates = [], gamepadPolling = None, clock = 0, timeouts = [],
      intervals = [], nextTimerId = 1, playOutcome = po, trace = []\<rparr>"
  by (simp add: KonamiCode_def init_def setupGamepadListener_def checkExistingGamepads_def
      preloadAudio_def)

lemma isPatternPrefix_sequence: "isPatternPrefix sequence"
  by (simp add: isPatternPrefix_iff length_sequence)

lemma ctl_advance:
  assumes "\<not> hasPlayedThisSession s" "length (currentSequence s) = i" "i < 9"
    "b = controllerSequence ! i"
  shows "handleControllerInput b s = s\<lparr>currentSequence := currentSequence s @ [b]\<rparr>"
  using assms
  by (auto simp: handleControllerInput_def nth_opt_def length_controllerSequence Let_def)

lemma ctl_complete:
  assumes "\<not> hasPlayedThisSession s" "length (currentSequence s) = 9"
    "b = controllerSequence ! 9"
  shows "handleControllerInput b s =
     resetSequence (playKonamiAudio (emit MatchEvent (s\<lparr>currentSequence := currentSequence s @ [b]\<rparr>)))"
  using assms
  by (auto simp: handleControllerInput_def nth_opt_def length_controllerSequence Let_def)

lemma feedButtons_snoc: "feedButtons (bs @ [b]) s = handleControllerInput b (feedButtons bs s)"
  by (simp add: feedButtons_def)

lemma feedButtons_take:
  "currentSequence s = [] \<Longrightarrow> \<not> hasPlayedThisSession s \<Longrightarrow> n < 10 \<Longrightarrow>
   feedButtons (take n controllerSequence) s = s\<lparr>currentSequence := take n controllerSequence\<rparr>"
proof (induction n)
  case 0
  then show ?case by (simp add: feedButtons_def)
next
  case (Suc n)
  have t: "take (Suc n) controllerSequence = take n controllerSequence @ [controllerSequence ! n]"
    using Suc.prems(3) by (simp add: take_Suc_conv_app_nth length_controllerSequence)
  have ih: "feedButtons (take n controllerSequence) s =
              s\<lparr>currentSequence := take n controllerSequence\<rparr>"
    using Suc by simp
  have l: "length (take n controllerSequence) = n"
    using Suc.prems(3) by (simp add: length_controllerSequence)
  show ?case
    unfolding t feedButtons_snoc ih
    using ctl_advance [of "s\<lparr>currentSequence := take n controllerSequence\<rparr>" n
        "controllerSequence ! n"] Suc.prems(2,3) l
    by simp
qed

lemma feedButtons_full:
  assumes "currentSequence s = []" "\<not> hasPlayedThisSession s"
  shows "feedButtons controllerSequence s =
           resetSequence (playKonamiAudio (emit MatchEvent (s\<lparr>currentSequence := controllerSequence\<rparr>)))"
proof -
  have t: "controllerSequence = take 9 controllerSequence @ [controllerSequence ! 9]"
    using take_Suc_conv_app_nth [of 9 controllerSequence]
    by (simp add: length_controllerSequence)
  have ih: "feedButtons (take 9 controllerSequence) s =
              s\<lparr>currentSequence := take 9 controllerSequence\<rparr>"
    using feedButtons_take [OF assms, of 9] by simp
  have "feedButtons (take 9 controllerSequence @ [controllerSequence ! 9]) s =
          resetSequence (playKonamiAudio (emit MatchEvent
            (s\<lparr>currentSequence := take 9 controllerSequence @ [controllerSequence ! 9]\<rparr>)))"
    unfolding feedButtons_snoc ih
    using ctl_complete [of "s\<lparr>currentSequence := take 9 controllerSequence\<rparr>"
        "controllerSequence ! 9"] assms(2)
    by (simp add: length_controllerSequence)
  then show ?thesis using t by simp
qed

lemma feedPattern_full:
  assumes "currentSequence s = []" "\<not> hasPlayedThisSession s" "isFullPattern p"
  shows "feedPattern p s = resetSequence (playKonamiAudio (emit MatchEvent s))"
proof (cases p)
  case (Typed ks)
  then show ?thesis
    using feedKeys_full [OF assms(1,2), of ks] assms(3)
    by (simp add: length_sequence reset_play_currentSequence)
next
  case Pressed
  then show ?thesis
    using feedButtons_full [OF assms(1,2)] by (simp add: reset_play_currentSequence)
qed

lemma feedPattern_suppressed: "hasPlayedThisSession s \<Longrightarrow> feedPattern p s = s"
  by (cases p) (simp_all add: feedKeys_suppressed feedButtons_suppressed)

lemma feedPattern_started:
  assumes "currentSequence s = []" "\<not> hasPlayedThisSession s" "isFullPattern p"
    "audio s \<noteq> None" "playOutcome s = Plays \<or> playOutcome s = PlayRejects"
  shows "hasPlayedThisSession (feedPattern p s)"
    and "timeouts (feedPattern p s) = timeouts s @ [clock s + 10000]"
    and "countOf AudioPlay (feedPattern p s) = countOf AudioPlay s + 1"
    and "clock (feedPattern p s) = clock s"
    and "playOutcome (feedPattern p s) = playOutcome s"
    and "audio (feedPattern p s) \<noteq> None"
    and "currentSequence (feedPattern p s) = []"
proof -
  let ?m = "emit MatchEvent s"
  have e: "feedPattern p s = resetSequence (playKonamiAudio ?m)"
    using feedPattern_full [OF assms(1-3)] .
  have m: "\<not> hasPlayedThisSession ?m" "audio ?m \<noteq> None"
    "playOutcome ?m = Plays \<or> playOutcome ?m = PlayRejects"
    using assms(2,4,5) by (simp_all add: emit_def)
  note q = playKonamiAudio_started [OF m]
  show "hasPlayedThisSession (feedPattern p s)" using q(1) by (simp add: e resetSequence_def)
  show "timeouts (feedPattern p s) = timeouts s @ [clock s + 10000]"
    using q(2) by (simp add: e resetSequence_def emit_def)
  show "countOf AudioPlay (feedPattern p s) = countOf AudioPlay s + 1"
    using q(3) by (simp add: e resetSequence_def emit_def countOf_def)
  show "clock (feedPattern p s) = clock s" using q(4) by (simp add: e resetSequence_def emit_def)
  show "playOutcome (feedPattern p s) = playOutcome s"
    using q(5) by (simp add: e resetSequence_def emit_def)
  show "audio (feedPattern p s) \<noteq> None" using q(6) by (simp add: e resetSequence_def)
  show "currentSequence (feedPattern p s) = []" by (simp add: e resetSequence_def)
qed

lemma feedPattern_not_started:
  assumes "currentSequence s = []" "\<not> hasPlayedThisSession s" "isFullPattern p"
    "audio s = None \<or> playOutcome s = PlayThrows \<or> playOutcome s = SeekThrows"
  shows "\<not> hasPlayedThisSession (feedPattern p s)"
    and "timeouts (feedPattern p s) = timeouts s"
    and "countOf MatchEvent (feedPattern p s) = countOf MatchEvent s + 1"
  using assms(2,4)
  unfolding feedPattern_full [OF assms(1-3)]
  by (auto simp: resetSequence_def playKonamiAudio_def emit_def countOf_def
      split: option.splits play_outcome.splits)

text \<open>
  C4, as stated, fails. When \<open>new Audio()\<close> has failed, a full pattern is matched but
  the flag stays clear, nothing is scheduled and \<open>play()\<close> is never called. When
  \<open>play()\<close> throws, a full pattern is matched and \<open>play()\<close> is called, but the flag
  stays clear, so the pattern entered twice in direct succession, with no time passing,
  calls \<open>play()\<close> twice.
\<close>

theorem match_sets_flag_for_ten_seconds_counterexample:
  "countOf MatchEvent (feedPattern (Typed sequence) (KonamiCode False Plays [])) = 1 \<and>
   \<not> hasPlayedThisSession (feedPattern (Typed sequence) (KonamiCode False Plays [])) \<and>
   timeouts (feedPattern (Typed sequence) (KonamiCode False Plays [])) = [] \<and>
   countOf AudioPlay (feedPattern (Typed sequence) (KonamiCode False Plays [])) = 0 \<and>
   countOf MatchEvent (feedPattern Pressed (KonamiCode True PlayThrows [])) = 1 \<and>
   \<not> hasPlayedThisSession (feedPattern Pressed (KonamiCode True PlayThrows [])) \<and>
   timeouts (feedPattern Pressed (KonamiCode True PlayThrows [])) = [] \<and>
   countOf AudioPlay
     (feedPattern (Typed sequence) (feedPattern Pressed (KonamiCode True PlayThrows []))) = 2 \<and>
   countOf AudioPlay
     (feedPattern (Typed sequence) (feedPattern Pressed (KonamiCode True PlayThrows []))) \<noteq> 1"
proof -
  have f: "isFullPattern (Typed sequence)" "isFullPattern Pressed"
    by (simp_all add: isPatternPrefix_sequence)
  have a: "feedPattern (Typed sequence) (KonamiCode False Plays []) =
      resetSequence (playKonamiAudio (emit MatchEvent (KonamiCode False Plays [])))"
    by (rule feedPattern_full [OF _ _ f(1)]) (simp_all add: noAudio_eq)
  have b: "feedPattern Pressed (KonamiCode True PlayThrows []) =
      resetSequence (playKonamiAudio (emit MatchEvent (KonamiCode True PlayThrows [])))"
    by (rule feedPattern_full [OF _ _ f(2)]) (simp_all add: withAudio_eq)
  have b': "resetSequence (playKonamiAudio (emit MatchEvent (KonamiCode True PlayThrows []))) =
     \<lparr>currentSequence = [],
      audio = Some \<lparr>preload = ''auto'', src = audioUrl, volumePercent = 70, currentTime = 0\<rparr>,
      hasPlayedThisSession = False, gamepadIndex = - 1, previousButtonStates = [],
      previousDpadStates = [], gamepadPolling = None, clock = 0, timeouts = [],
      intervals = [], nextTimerId = 1, playOutcome = PlayThrows,
      trace = [MatchEvent, AudioPlay, ConsoleWarn ''Error playing Konami Code audio:'']\<rparr>"
    by (simp add: withAudio_eq resetSequence_def playKonamiAudio_def emit_def)
  have c: "feedPattern (Typed sequence) (feedPattern Pressed (KonamiCode True PlayThrows [])) =
      resetSequence (playKonamiAudio (emit MatchEvent
        (feedPattern Pressed (KonamiCode True PlayThrows []))))"
    by (rule feedPattern_full [OF _ _ f(1)]) (simp_all add: b [unfolded feedPattern.simps] b')
  have r1: "countOf MatchEvent (feedPattern (Typed sequence) (KonamiCode False Plays [])) = 1"
    "\<not> hasPlayedThisSession (feedPattern (Typed sequence) (KonamiCode False Plays []))"
    "timeouts (feedPattern (Typed sequence) (KonamiCode False Plays [])) = []"
    "countOf AudioPlay (feedPattern (Typed sequence) (KonamiCode False Plays [])) = 0"
    unfolding a
    by (simp_all add: noAudio_eq resetSequence_def playKonamiAudio_def emit_def countOf_def)
  have r2: "countOf MatchEvent (feedPattern Pressed (KonamiCode True PlayThrows [])) = 1"
   "\<not> hasPlayedThisSession (feedPattern Pressed (KonamiCode True PlayThrows []))"
   "timeouts (feedPattern Pressed (KonamiCode True PlayThrows [])) = []"
    unfolding b b' by (simp_all add: countOf_def)
  have r3: "countOf AudioPlay
     (feedPattern (Typed sequence) (feedPattern Pressed (KonamiCode True PlayThrows []))) = 2"
    unfolding c unfolding b b'
    by (simp add: resetSequence_def playKonamiAudio_def emit_def countOf_def)
  show ?thesis using r1 r2 r3 by simp
qed


lemma cooldown_window:
  assumes "currentSequence s = []" "\<not> hasPlayedThisSession s" "timeouts s = []"
    "audio s \<noteq> None" "playOutcome s = Plays \<or> playOutcome s = PlayRejects"
    "isFullPattern p1" "isFullPattern p2"
  shows "hasPlayedThisSession (feedPattern p1 s) \<and>
         timeouts (feedPattern p1 s) = [clock s + 10000] \<and>
         countOf AudioPlay (feedPattern p1 s) = countOf AudioPlay s + 1"
    and "dt < 10000 \<Longrightarrow>
            hasPlayedThisSession (elapse dt (feedPattern p1 s)) \<and>
            feedPattern p2 (elapse dt (feedPattern p1 s)) = elapse dt (feedPattern p1 s) \<and>
            countOf AudioPlay (feedPattern p2 (elapse dt (feedPattern p1 s))) =
              countOf AudioPlay s + 1 \<and>
            timeouts (feedPattern p2 (elapse dt (feedPattern p1 s))) = [clock s + 10000] \<and>
            \<not> hasPlayedThisSession
                (elapse (10000 - dt) (feedPattern p2 (elapse dt (feedPattern p1 s))))"
    and "10000 \<le> dt \<Longrightarrow>
            \<not> hasPlayedThisSession (elapse dt (feedPattern p1 s)) \<and>
            timeouts (elapse dt (feedPattern p1 s)) = [] \<and>
            countOf AudioPlay (feedPattern p2 (elapse dt (feedPattern p1 s))) =
              countOf AudioPlay s + 2"
proof -
  let ?s1 = "feedPattern p1 s"
  note f = feedPattern_started [OF assms(1,2,6,4,5)]
  have t1: "timeouts ?s1 = [clock s + 10000]" using f(2) assms(3) by simp
  show "hasPlayedThisSession ?s1 \<and> timeouts ?s1 = [clock s + 10000] \<and>
         countOf AudioPlay ?s1 = countOf AudioPlay s + 1"
    using f(1,3) t1 by simp
  show "hasPlayedThisSession (elapse dt ?s1) \<and>
            feedPattern p2 (elapse dt ?s1) = elapse dt ?s1 \<and>
            countOf AudioPlay (feedPattern p2 (elapse dt ?s1)) = countOf AudioPlay s + 1 \<and>
            timeouts (feedPattern p2 (elapse dt ?s1)) = [clock s + 10000] \<and>
            \<not> hasPlayedThisSession (elapse (10000 - dt) (feedPattern p2 (elapse dt ?s1)))"
    if dt: "dt < 10000"
  proof -
    have lt: "clock ?s1 + dt < clock s + 10000" using f(4) dt by simp
    have h: "hasPlayedThisSession (elapse dt ?s1)"
      using elapse_before(2) [OF t1 lt] f(1) by simp
    have t: "timeouts (elapse dt ?s1) = [clock s + 10000]"
      using elapse_before(1) [OF t1 lt] .
    have e: "feedPattern p2 (elapse dt ?s1) = elapse dt ?s1"
      using feedPattern_suppressed [OF h] .
    have c: "countOf AudioPlay (elapse dt ?s1) = countOf AudioPlay s + 1"
      using f(3) by (simp add: countOf_def elapse_fields)
    have ge: "clock s + 10000 \<le> clock (elapse dt ?s1) + (10000 - dt)"
      using f(4) dt by (simp add: elapse_fields)
    have "\<not> hasPlayedThisSession (elapse (10000 - dt) (elapse dt ?s1))"
      using elapse_after(2) [OF t ge] .
    then show ?thesis using h e c t by simp
  qed
  show "\<not> hasPlayedThisSession (elapse dt ?s1) \<and>
            timeouts (elapse dt ?s1) = [] \<and>
            countOf AudioPlay (feedPattern p2 (elapse dt ?s1)) = countOf AudioPlay s + 2"
    if dt: "10000 \<le> dt"
  proof -
    have ge: "clock s + 10000 \<le> clock ?s1 + dt" using f(4) dt by simp
    have h: "\<not> hasPlayedThisSession (elapse dt ?s1)" using elapse_after(2) [OF t1 ge] .
    have t: "timeouts (elapse dt ?s1) = []" using elapse_after(1) [OF t1 ge] .
    have cs: "currentSequence (elapse dt ?s1) = []" using f(7) by (simp add: elapse_fields)
    have au: "audio (elapse dt ?s1) \<noteq> None" using f(6) by (simp add: elapse_fields)
    have po: "playOutcome (elapse dt ?s1) = Plays \<or> playOutcome (elapse dt ?s1) = PlayRejects"
      using f(5) assms(5) by (simp add: elapse_fields)
    have "countOf AudioPlay (feedPattern p2 (elapse dt ?s1)) =
            countOf AudioPlay (elapse dt ?s1) + 1"
      using feedPattern_started(3) [OF cs h assms(7) au po] .
    also have "countOf AudioPlay (elapse dt ?s1) = countOf AudioPlay s + 1"
      using f(3) by (simp add: countOf_def elapse_fields)
    finally show ?thesis using h t by simp
  qed
qed

text \<open>
  C4, amended. Let a full pattern be entered, on the keyboard or on the controller, into
  an empty, unsuppressed state \<open>s\<close> with no timeout pending. If the audio element exists
  and \<open>play()\<close> returns its promise (whether that is later fulfilled or rejected), the
  flag is set, \<open>play()\<close> has been called once and one timeout is pending, due at
  \<open>clock s + 10000\<close>. After less than 10000 ms the flag is still set; a second full pattern
  entered then, on either device, changes nothing: still one call of \<open>play()\<close>, the same
  single deadline, and the flag clears when the 10000 ms of the first match are over.
  After 10000 ms or more the flag is clear and a second full pattern calls \<open>play()\<close> a
  second time. If there is no audio element, or starting playback throws, the match sets
  no flag and schedules nothing. No event other than the passing of time removes or moves
  a pending timeout, and while the flag is set no such event changes the flag or the
  pending timeouts.
\<close>

theorem cooldown_ten_seconds:
  assumes "currentSequence s = []" "\<not> hasPlayedThisSession s" "timeouts s = []"
    "isFullPattern p1" "isFullPattern p2"
  shows "(audio s \<noteq> None \<and> (playOutcome s = Plays \<or> playOutcome s = PlayRejects) \<longrightarrow>
            hasPlayedThisSession (feedPattern p1 s) \<and>
            timeouts (feedPattern p1 s) = [clock s + 10000] \<and>
            countOf AudioPlay (feedPattern p1 s) = countOf AudioPlay s + 1 \<and>
            (dt < 10000 \<longrightarrow>
               hasPlayedThisSession (elapse dt (feedPattern p1 s)) \<and>
               feedPattern p2 (elapse dt (feedPattern p1 s)) = elapse dt (feedPattern p1 s) \<and>
               countOf AudioPlay (feedPattern p2 (elapse dt (feedPattern p1 s))) =
                 countOf AudioPlay s + 1 \<and>
               timeouts (feedPattern p2 (elapse dt (feedPattern p1 s))) = [clock s + 10000] \<and>
               \<not> hasPlayedThisSession
                   (elapse (10000 - dt) (feedPattern p2 (elapse dt (feedPattern p1 s))))) \<and>
            (10000 \<le> dt \<longrightarrow>
               \<not> hasPlayedThisSession (elapse dt (feedPattern p1 s)) \<and>
               timeouts (elapse dt (feedPattern p1 s)) = [] \<and>
               countOf AudioPlay (feedPattern p2 (elapse dt (feedPattern p1 s))) =
                 countOf AudioPlay s + 2)) \<and>
         (audio s = None \<or> playOutcome s = PlayThrows \<or> playOutcome s = SeekThrows \<longrightarrow>
            \<not> hasPlayedThisSession (feedPattern p1 s) \<and> timeouts (feedPattern p1 s) = []) \<and>
         (\<not> isElapse e \<longrightarrow> prefix (timeouts s') (timeouts (step e s'))) \<and>
         (\<not> isElapse e \<and> hasPlayedThisSession s' \<longrightarrow>
            hasPlayedThisSession (step e s') \<and> timeouts (step e s') = timeouts s')"
proof -
  have a: "hasPlayedThisSession (feedPattern p1 s) \<and>
            timeouts (feedPattern p1 s) = [clock s + 10000] \<and>
            countOf AudioPlay (feedPattern p1 s) = countOf AudioPlay s + 1 \<and>
            (dt < 10000 \<longrightarrow>
               hasPlayedThisSession (elapse dt (feedPattern p1 s)) \<and>
               feedPattern p2 (elapse dt (feedPattern p1 s)) = elapse dt (feedPattern p1 s) \<and>
               countOf AudioPlay (feedPattern p2 (elapse dt (feedPattern p1 s))) =
                 countOf AudioPlay s + 1 \<and>
               timeouts (feedPattern p2 (elapse dt (feedPattern p1 s))) = [clock s + 10000] \<and>
               \<not> hasPlayedThisSession
                   (elapse (10000 - dt) (feedPattern p2 (elapse dt (feedPattern p1 s))))) \<and>
            (10000 \<le> dt \<longrightarrow>
               \<not> hasPlayedThisSession (elapse dt (feedPattern p1 s)) \<and>
               timeouts (elapse dt (feedPattern p1 s)) = [] \<and>
               countOf AudioPlay (feedPattern p2 (elapse dt (feedPattern p1 s))) =
                 countOf AudioPlay s + 2)"
    if w: "audio s \<noteq> None \<and> (playOutcome s = Plays \<or> playOutcome s = PlayRejects)"
  proof -
    have au: "audio s \<noteq> None" and po: "playOutcome s = Plays \<or> playOutcome s = PlayRejects"
      using w by simp_all
    note c = cooldown_window [OF assms(1-3) au po assms(4,5)]
    show ?thesis using c(1) c(2) [of dt] c(3) [of dt] by blast
  qed
  have b: "\<not> hasPlayedThisSession (feedPattern p1 s) \<and> timeouts (feedPattern p1 s) = []"
    if w: "audio s = None \<or> playOutcome s = PlayThrows \<or> playOutcome s = SeekThrows"
    using feedPattern_not_started(1,2) [OF assms(1,2,4) w] assms(3) by simp
  have d: "prefix (timeouts s') (timeouts (step e s'))" if "\<not> isElapse e"
    using step_timeouts_prefix [of e s'] that by (cases e) simp_all
  have g: "hasPlayedThisSession (step e s') \<and> timeouts (step e s') = timeouts s'"
    if "\<not> isElapse e \<and> hasPlayedThisSession s'"
    using step_suppressed [of s' e] that by (cases e) simp_all
  show ?thesis using a b d g by blast
qed

theorem cooldown_ten_seconds_witness:
  "currentSequence (KonamiCode True Plays []) = [] \<and>
   \<not> hasPlayedThisSession (KonamiCode True Plays []) \<and>
   timeouts (KonamiCode True Plays []) = [] \<and>
   audio (KonamiCode True Plays []) \<noteq> None \<and>
   playOutcome (KonamiCode True Plays []) = Plays \<and>
   isFullPattern Pressed \<and> isFullPattern (Typed mixedPattern) \<and>
   hasPlayedThisSession (feedPattern Pressed (KonamiCode True Plays [])) \<and>
   timeouts (feedPattern Pressed (KonamiCode True Plays [])) = [10000] \<and>
   countOf AudioPlay (feedPattern Pressed (KonamiCode True Plays [])) = 1 \<and>
   countOf AudioPlay (feedPattern (Typed mixedPattern)
      (elapse 9999 (feedPattern Pressed (KonamiCode True Plays [])))) = 1 \<and>
   timeouts (feedPattern (Typed mixedPattern)
      (elapse 9999 (feedPattern Pressed (KonamiCode True Plays [])))) = [10000] \<and>
   \<not> hasPlayedThisSession (elapse 1 (feedPattern (Typed mixedPattern)
      (elapse 9999 (feedPattern Pressed (KonamiCode True Plays []))))) \<and>
   countOf AudioPlay (feedPattern Pressed
      (elapse 10001 (feedPattern (Typed mixedPattern) (KonamiCode True Plays [])))) = 2 \<and>
   \<not> isElapse (KeyDown ''KeyA'') \<and> hasPlayedThisSession afterMatch \<and>
   timeouts (step (KeyDown ''KeyA'') afterMatch) = [10000]"
proof -
  have h: "currentSequence (KonamiCode True Plays []) = []"
    "\<not> hasPlayedThisSession (KonamiCode True Plays [])"
    "timeouts (KonamiCode True Plays []) = []"
    "audio (KonamiCode True Plays []) \<noteq> None"
    "playOutcome (KonamiCode True Plays []) = Plays"
    by (simp_all add: fresh_eq)
  have p: "isFullPattern Pressed" "isFullPattern (Typed mixedPattern)"
    by (simp_all add: isPatternPrefix_iff length_sequence)
       (simp_all add: mixedPattern_def sequence_def wasdSequence_def less_Suc_eq numeral_nat)
  have c0: "countOf AudioPlay (KonamiCode True Plays []) = 0" "clock (KonamiCode True Plays []) = 0"
    by (simp_all add: fresh_eq countOf_def)
  have n: "\<not> isElapse (KeyDown ''KeyA'')" by simp
  have m: "hasPlayedThisSession afterMatch" "timeouts afterMatch = [10000]"
    by (simp_all add: afterMatch_eq)
  have lt: "(9999::nat) < 10000" "(10000::nat) \<le> 10001" by simp_all
  from cooldown_ten_seconds [OF h(1-3) p(1) p(2), of 9999 "KeyDown ''KeyA''" afterMatch]
    h(4,5) lt(1) n m(1)
  have r1: "hasPlayedThisSession (feedPattern Pressed (KonamiCode True Plays []))"
    "timeouts (feedPattern Pressed (KonamiCode True Plays [])) =
       [clock (KonamiCode True Plays []) + 10000]"
    "countOf AudioPlay (feedPattern Pressed (KonamiCode True Plays [])) =
       countOf AudioPlay (KonamiCode True Plays []) + 1"
    "countOf AudioPlay (feedPattern (Typed mixedPattern)
        (elapse 9999 (feedPattern Pressed (KonamiCode True Plays [])))) =
       countOf AudioPlay (KonamiCode True Plays []) + 1"
    "timeouts (feedPattern (Typed mixedPattern)
        (elapse 9999 (feedPattern Pressed (KonamiCode True Plays [])))) =
       [clock (KonamiCode True Plays []) + 10000]"
    "\<not> hasPlayedThisSession (elapse (10000 - 9999) (feedPattern (Typed mixedPattern)
        (elapse 9999 (feedPattern Pressed (KonamiCode True Plays [])))))"
    "timeouts (step (KeyDown ''KeyA'') afterMatch) = timeouts afterMatch"
    by blast+
  from cooldown_ten_seconds [OF h(1-3) p(2) p(1), of 10001] h(4,5) lt(2)
  have r2: "countOf AudioPlay (feedPattern Pressed
        (elapse 10001 (feedPattern (Typed mixedPattern) (KonamiCode True Plays [])))) =
       countOf AudioPlay (KonamiCode True Plays []) + 2"
    by blast
  show ?thesis using h p r1 r2 n c0 m by simp
qed

subsection \<open>Playback failures\<close>

text \<open>
  C6, as stated, fails: when \<open>new Audio()\<close> has failed, or when starting playback throws,
  a full pattern is matched but the suppression flag stays clear and no timeout is
  scheduled; after a successful start the flag is set and one timeout is pending.
\<close>

theorem playback_failure_keeps_bookkeeping_counterexample:
  "countOf MatchEvent (feedKeys sequence (KonamiCode False Plays [])) = 1 \<and>
   \<not> hasPlayedThisSession (feedKeys sequence (KonamiCode False Plays [])) \<and>
   timeouts (feedKeys sequence (KonamiCode False Plays [])) = [] \<and>
   countOf MatchEvent (feedKeys sequence (KonamiCode True PlayThrows [])) = 1 \<and>
   \<not> hasPlayedThisSession (feedKeys sequence (KonamiCode True PlayThrows [])) \<and>
   timeouts (feedKeys sequence (KonamiCode True PlayThrows [])) = [] \<and>
   hasPlayedThisSession (feedKeys sequence (KonamiCode True Plays [])) \<and>
   timeouts (feedKeys sequence (KonamiCode True Plays [])) = [10000]"
proof -
  have a: "feedKeys sequence (KonamiCode False Plays []) =
      resetSequence (playKonamiAudio (emit MatchEvent
        ((KonamiCode False Plays [])\<lparr>currentSequence := sequence\<rparr>)))"
    by (rule feedKeys_full [OF _ _ isPatternPrefix_sequence length_sequence])
       (simp_all add: noAudio_eq)
  have b: "feedKeys sequence (KonamiCode True PlayThrows []) =
      resetSequence (playKonamiAudio (emit MatchEvent
        ((KonamiCode True PlayThrows [])\<lparr>currentSequence := sequence\<rparr>)))"
    by (rule feedKeys_full [OF _ _ isPatternPrefix_sequence length_sequence])
       (simp_all add: withAudio_eq)
  have c: "feedKeys sequence (KonamiCode True Plays []) = afterMatch"
    by (simp add: afterMatch_def)
  show ?thesis
    unfolding a b c
    by (simp add: noAudio_eq withAudio_eq afterMatch_eq resetSequence_def playKonamiAudio_def
        emit_def countOf_def)
qed

text \<open>
  C6, amended. No playback failure leaves the handlers: \<open>preloadAudio\<close> logs a failed
  \<open>new Audio()\<close> and leaves \<open>audio\<close> as it was, and whatever the audio element does, a
  full pattern typed into an empty unsuppressed state ends with the prefix reset to 0. A
  rejected \<open>play()\<close> promise is logged and the flag bookkeeping is that of a successful
  start: flag set, one timeout 10000 ms ahead. When there is no audio element, a match
  changes nothing at all (the flag stays clear, nothing is scheduled, nothing is logged).
  When the assignment to \<open>currentTime\<close> or \<open>play()\<close> throws, the error is logged, the
  flag stays clear and nothing is scheduled.
\<close>

theorem playback_failure_handling:
  assumes "\<not> hasPlayedThisSession s"
  shows "preloadAudio False s = emit (ConsoleWarn ''Could not preload Konami Code audio:'') s \<and>
         (currentSequence s = [] \<and> isPatternPrefix ks \<and> length ks = 10 \<longrightarrow>
            prefixLength (feedKeys ks s) = 0) \<and>
         (audio s \<noteq> None \<and> playOutcome s = PlayRejects \<longrightarrow>
            playKonamiAudio s =
              (emit (ConsoleWarn ''Could not play Konami Code audio:'')
                 (playKonamiAudio (s\<lparr>playOutcome := Plays\<rparr>)))\<lparr>playOutcome := PlayRejects\<rparr> \<and>
            hasPlayedThisSession (playKonamiAudio s) \<and>
            timeouts (playKonamiAudio s) = timeouts s @ [clock s + 10000]) \<and>
         (audio s = None \<longrightarrow> playKonamiAudio s = s) \<and>
         (audio s \<noteq> None \<and> (playOutcome s = PlayThrows \<or> playOutcome s = SeekThrows) \<longrightarrow>
            \<not> hasPlayedThisSession (playKonamiAudio s) \<and>
            timeouts (playKonamiAudio s) = timeouts s \<and>
            last (trace (playKonamiAudio s)) = ConsoleWarn ''Error playing Konami Code audio:'')"
proof (intro conjI impI)
  show "preloadAudio False s = emit (ConsoleWarn ''Could not preload Konami Code audio:'') s"
    by (simp add: preloadAudio_def)
next
  assume "currentSequence s = [] \<and> isPatternPrefix ks \<and> length ks = 10"
  then show "prefixLength (feedKeys ks s) = 0"
    using feedKeys_full [of s ks] assms by (simp add: prefixLength_def resetSequence_def)
next
  assume a: "audio s \<noteq> None \<and> playOutcome s = PlayRejects"
  show "playKonamiAudio s =
              (emit (ConsoleWarn ''Could not play Konami Code audio:'')
                 (playKonamiAudio (s\<lparr>playOutcome := Plays\<rparr>)))\<lparr>playOutcome := PlayRejects\<rparr>"
    using a assms by (auto simp: playKonamiAudio_def emit_def setTimeoutClearFlag_def)
  show "hasPlayedThisSession (playKonamiAudio s)"
    using playKonamiAudio_started(1) [of s] a assms by simp
  show "timeouts (playKonamiAudio s) = timeouts s @ [clock s + 10000]"
    using playKonamiAudio_started(2) [of s] a assms by simp
next
  assume "audio s = None"
  then show "playKonamiAudio s = s" by (simp add: playKonamiAudio_def)
next
  assume a: "audio s \<noteq> None \<and> (playOutcome s = PlayThrows \<or> playOutcome s = SeekThrows)"
  show "\<not> hasPlayedThisSession (playKonamiAudio s)"
    using a assms by (auto simp: playKonamiAudio_def emit_def)
  show "timeouts (playKonamiAudio s) = timeouts s"
    using a assms by (auto simp: playKonamiAudio_def emit_def)
  show "last (trace (playKonamiAudio s)) = ConsoleWarn ''Error playing Konami Code audio:''"
    using a assms by (auto simp: playKonamiAudio_def emit_def)
qed

theorem playback_failure_handling_witness:
  "\<not> hasPlayedThisSession (KonamiCode True PlayRejects []) \<and>
   audio (KonamiCode True PlayRejects []) \<noteq> None \<and>
   playOutcome (KonamiCode True PlayRejects []) = PlayRejects \<and>
   currentSequence (KonamiCode True PlayRejects []) = [] \<and>
   isPatternPrefix mixedPattern \<and> length mixedPattern = 10 \<and>
   prefixLength (feedKeys mixedPattern (KonamiCode True PlayRejects [])) = 0 \<and>
   hasPlayedThisSession (playKonamiAudio (KonamiCode True PlayRejects [])) \<and>
   timeouts (playKonamiAudio (KonamiCode True PlayRejects [])) = [10000] \<and>
   \<not> hasPlayedThisSession (KonamiCode False Plays []) \<and>
   audio (KonamiCode False Plays []) = None \<and>
   playKonamiAudio (KonamiCode False Plays []) = KonamiCode False Plays []"
proof -
  have h: "\<not> hasPlayedThisSession (KonamiCode True PlayRejects [])"
    "audio (KonamiCode True PlayRejects []) \<noteq> None"
    "playOutcome (KonamiCode True PlayRejects []) = PlayRejects"
    "currentSequence (KonamiCode True PlayRejects []) = []"
    "timeouts (KonamiCode True PlayRejects []) = []"
    "clock (KonamiCode True PlayRejects []) = 0"
    by (simp_all add: withAudio_eq)
  have p: "isPatternPrefix mixedPattern" "length mixedPattern = 10"
    by (simp_all add: isPatternPrefix_iff)
       (simp_all add: mixedPattern_def sequence_def wasdSequence_def less_Suc_eq numeral_nat)
  from playback_failure_handling [OF h(1), of mixedPattern] h(2,3,4) p
  have r: "prefixLength (feedKeys mixedPattern (KonamiCode True PlayRejects [])) = 0"
    "hasPlayedThisSession (playKonamiAudio (KonamiCode True PlayRejects []))"
    "timeouts (playKonamiAudio (KonamiCode True PlayRejects [])) =
       timeouts (KonamiCode True PlayRejects []) @ [clock (KonamiCode True PlayRejects []) + 10000]"
    by blast+
  have n: "\<not> hasPlayedThisSession (KonamiCode False Plays [])"
    "audio (KonamiCode False Plays []) = None"
    by (simp_all add: noAudio_eq)
  from playback_failure_handling [OF n(1)] n(2)
  have q: "playKonamiAudio (KonamiCode False Plays []) = KonamiCode False Plays []"
    by blast
  show ?thesis using h p r n q by simp
qed

subsection \<open>Connecting, disconnecting and the poll loop\<close>

lemma withPad_eq:
  "withPad =
     \<lparr>currentSequence = [],
      audio = Some \<lparr>preload = ''auto'', src = audioUrl, volumePercent = 70, currentTime = 0\<rparr>,
      hasPlayedThisSession = False, gamepadIndex = 0, previousButtonStates = [],
      previousDpadStates = [], gamepadPolling = Some 1, clock = 0, timeouts = [],
      intervals = [1], nextTimerId = 2, playOutcome = Plays, trace = []\<rparr>"
  by (simp add: withPad_def KonamiCode_def init_def setupGamepadListener_def
      checkExistingGamepads_def preloadAudio_def startGamepadPolling_def)

lemma pollGamepad_untracked: "gamepadIndex s = - 1 \<Longrightarrow> pollGamepad gps s = s"
  by (simp add: pollGamepad_def)

lemma run_Cons: "run (e # es) s = run es (step e s)"
  by (simp add: run_def)

lemma run_ticks_untracked:
  "gamepadIndex s = - 1 \<Longrightarrow> run (map PollTick gpss) s = s"
  by (induction gpss) (simp_all add: run_def pollGamepad_untracked)

lemma onGamepadDisconnected_tracked:
  assumes "gamepadIndex s = idx"
  shows "onGamepadDisconnected idx s =
           s\<lparr>gamepadIndex := - 1, trace := trace s @ [ConsoleLog ''Xbox controller disconnected:'' idx]\<rparr>"
  using assms by (simp add: onGamepadDisconnected_def emit_def Let_def)

lemma pollGamepad_missing:
  assumes "gamepadIndex s \<noteq> - 1" "getGamepad gps (gamepadIndex s) = None"
  shows "pollGamepad gps s =
           s\<lparr>gamepadIndex := - 1,
             intervals := (case gamepadPolling s of None \<Rightarrow> intervals s
                           | Some h \<Rightarrow> removeAll h (intervals s)),
             gamepadPolling := None\<rparr>"
  using assms by (simp add: pollGamepad_def clearInterval_def split: option.splits)

text \<open>
  C7, as stated, fails on the disconnect event: with the controller of slot 0 tracked and
  the poll loop running, a disconnect event for slot 0 followed by one tick, or by three,
  leaves the interval running and its handle stored.
\<close>

theorem poll_loop_halts_after_disconnect_counterexample:
  "gamepadIndex withPad = 0 \<and> pollRunning withPad \<and>
   gamepadIndex (run [GamepadDisconnected 0, PollTick [None]] withPad) = - 1 \<and>
   pollRunning (run [GamepadDisconnected 0, PollTick [None]] withPad) \<and>
   gamepadPolling (run [GamepadDisconnected 0, PollTick [None]] withPad) = Some 1 \<and>
   intervals (run [GamepadDisconnected 0, PollTick [None]] withPad) = [1] \<and>
   pollRunning (run [GamepadDisconnected 0, PollTick [None], PollTick [None], PollTick [None]]
     withPad)"
  by (simp add: withPad_eq run_def pollRunning_def onGamepadDisconnected_def emit_def
      pollGamepad_def Let_def)

text \<open>
  C7, amended. When a tick finds the tracked controller no longer present, that tick
  clears the tracked index, stops the interval of the stored handle and clears the handle:
  no tracked index and no running poll loop remain. A disconnect event for the tracked
  index only clears the tracked index (a disconnect event for another index changes
  nothing but the log); with no tracked index a tick returns at once, so after such an
  event the poll loop keeps running, with its handle stored, however many ticks follow.
\<close>

theorem controller_disappearance:
  "(gamepadIndex s \<noteq> - 1 \<and> getGamepad gps (gamepadIndex s) = None \<longrightarrow>
      gamepadIndex (pollGamepad gps s) = - 1 \<and>
      gamepadPolling (pollGamepad gps s) = None \<and>
      \<not> pollRunning (pollGamepad gps s) \<and>
      (\<forall>h. gamepadPolling s = Some h \<longrightarrow> h \<notin> set (intervals (pollGamepad gps s)))) \<and>
   (gamepadIndex s = idx \<longrightarrow>
      gamepadIndex (onGamepadDisconnected idx s) = - 1 \<and>
      gamepadPolling (onGamepadDisconnected idx s) = gamepadPolling s \<and>
      intervals (onGamepadDisconnected idx s) = intervals s \<and>
      pollRunning (onGamepadDisconnected idx s) = pollRunning s \<and>
      run (GamepadDisconnected idx # map PollTick gpss) s = onGamepadDisconnected idx s) \<and>
   (gamepadIndex s \<noteq> idx \<longrightarrow>
      onGamepadDisconnected idx s = emit (ConsoleLog ''Xbox controller disconnected:'' idx) s) \<and>
   (gamepadIndex s = - 1 \<longrightarrow> pollGamepad gps s = s)"
proof (intro conjI impI allI)
  assume a: "gamepadIndex s \<noteq> - 1 \<and> getGamepad gps (gamepadIndex s) = None"
  then have e: "pollGamepad gps s =
           s\<lparr>gamepadIndex := - 1,
             intervals := (case gamepadPolling s of None \<Rightarrow> intervals s
                           | Some h \<Rightarrow> removeAll h (intervals s)),
             gamepadPolling := None\<rparr>"
    using pollGamepad_missing [of s gps] by simp
  show "gamepadIndex (pollGamepad gps s) = - 1" by (simp add: e)
  show "gamepadPolling (pollGamepad gps s) = None" by (simp add: e)
  show "\<not> pollRunning (pollGamepad gps s)" by (simp add: e pollRunning_def)
  show "h \<notin> set (intervals (pollGamepad gps s))" if "gamepadPolling s = Some h" for h
    using that by (simp add: e)
next
  assume a: "gamepadIndex s = idx"
  note e = onGamepadDisconnected_tracked [OF a]
  show "gamepadIndex (onGamepadDisconnected idx s) = - 1" by (simp add: e)
  show "gamepadPolling (onGamepadDisconnected idx s) = gamepadPolling s" by (simp add: e)
  show "intervals (onGamepadDisconnected idx s) = intervals s" by (simp add: e)
  show "pollRunning (onGamepadDisconnected idx s) = pollRunning s"
    by (simp add: e pollRunning_def split: option.splits)
  have "gamepadIndex (onGamepadDisconnected idx s) = - 1" by (simp add: e)
  then show "run (GamepadDisconnected idx # map PollTick gpss) s = onGamepadDisconnected idx s"
    by (simp add: run_Cons run_ticks_untracked)
next
  assume "gamepadIndex s \<noteq> idx"
  then show "onGamepadDisconnected idx s =
      emit (ConsoleLog ''Xbox controller disconnected:'' idx) s"
    by (simp add: onGamepadDisconnected_def emit_def Let_def)
next
  assume "gamepadIndex s = - 1"
  then show "pollGamepad gps s = s" by (rule pollGamepad_untracked)
qed

theorem controller_disappearance_witness:
  "gamepadIndex withPad \<noteq> - 1 \<and> getGamepad [None] (gamepadIndex withPad) = None \<and>
   gamepadPolling withPad = Some 1 \<and> pollRunning withPad \<and>
   gamepadIndex (pollGamepad [None] withPad) = - 1 \<and>
   gamepadPolling (pollGamepad [None] withPad) = None \<and>
   \<not> pollRunning (pollGamepad [None] withPad) \<and>
   1 \<notin> set (intervals (pollGamepad [None] withPad)) \<and>
   gamepadIndex withPad = 0 \<and>
   gamepadIndex (onGamepadDisconnected 0 withPad) = - 1 \<and>
   pollRunning (onGamepadDisconnected 0 withPad) \<and>
   pollGamepad [None] (onGamepadDisconnected 0 withPad) = onGamepadDisconnected 0 withPad"
proof -
  have h: "gamepadIndex withPad \<noteq> - 1" "getGamepad [None] (gamepadIndex withPad) = None"
    "gamepadPolling withPad = Some 1" "pollRunning withPad" "gamepadIndex withPad = 0"
    by (simp_all add: withPad_eq getGamepad_def nth_opt_def pollRunning_def)
  from controller_disappearance [of withPad "[None]" 0] h
  have r: "gamepadIndex (pollGamepad [None] withPad) = - 1"
    "gamepadPolling (pollGamepad [None] withPad) = None"
    "\<not> pollRunning (pollGamepad [None] withPad)"
    "1 \<notin> set (intervals (pollGamepad [None] withPad))"
    "gamepadIndex (onGamepadDisconnected 0 withPad) = - 1"
    "pollRunning (onGamepadDisconnected 0 withPad) = pollRunning withPad"
    by blast+
  from controller_disappearance [of "onGamepadDisconnected 0 withPad" "[None]"] r(5)
  have q: "pollGamepad [None] (onGamepadDisconnected 0 withPad) = onGamepadDisconnected 0 withPad"
    by blast
  show ?thesis using h r q by simp
qed

subsection \<open>Which controller is tracked\<close>

lemma checkExistingGamepadsFrom_first:
  "checkExistingGamepadsFrom i (replicate n None @ Some g # rest) s =
     startGamepadPolling (s\<lparr>gamepadIndex := int (i + n)\<rparr>)"
  by (induction n arbitrary: i) (simp_all add: add.assoc)

lemma checkExistingGamepadsFrom_none:
  "checkExistingGamepadsFrom i (replicate n None) s = s"
  by (induction n arbitrary: i) simp_all

lemma gamepadIndex_startGamepadPolling:
  "gamepadIndex (startGamepadPolling s) = gamepadIndex s"
  by (simp add: startGamepadPolling_def)

lemma pollGamepad_cong:
  assumes "getGamepad gps (gamepadIndex s) = getGamepad gps' (gamepadIndex s)"
  shows "pollGamepad gps s = pollGamepad gps' s"
  using assms by (simp add: pollGamepad_def)

text \<open>
  C8, as stated, fails: with the controller of slot 0 tracked and polled, a connection
  event for slot 1 is not ignored; the tracked index becomes 1.
\<close>

theorem later_connection_ignored_counterexample:
  "gamepadIndex withPad = 0 \<and> pollRunning withPad \<and>
   gamepadIndex (step (GamepadConnected 1) withPad) = 1 \<and>
   gamepadIndex (step (GamepadConnected 1) withPad) \<noteq> gamepadIndex withPad"
  by (simp add: withPad_eq pollRunning_def onGamepadConnected_def startGamepadPolling_def
      emit_def)

text \<open>
  C8, amended. The object tracks at most one controller, the one whose index is in
  \<open>gamepadIndex\<close>: a tick reads that slot only. The scan at start-up tracks the first
  connected controller of the array and tracks none when there is none. Every connection
  event makes the controller that has just connected the tracked one, whether or not
  another one was tracked before; it starts a poll loop only when no handle is stored, and
  otherwise leaves the handle and the running intervals as they are.
\<close>

theorem last_connected_controller_is_tracked:
  "gamepadIndex (onGamepadConnected idx s) = idx \<and>
   (gamepadPolling s \<noteq> None \<longrightarrow>
      gamepadPolling (onGamepadConnected idx s) = gamepadPolling s \<and>
      intervals (onGamepadConnected idx s) = intervals s) \<and>
   (gamepadPolling s = None \<longrightarrow>
      gamepadPolling (onGamepadConnected idx s) = Some (nextTimerId s) \<and>
      pollRunning (onGamepadConnected idx s)) \<and>
   gamepadIndex (checkExistingGamepads (replicate n None @ Some g # rest) s) = int n \<and>
   checkExistingGamepads (replicate n None) s = s \<and>
   (getGamepad gps (gamepadIndex s) = getGamepad gps' (gamepadIndex s) \<longrightarrow>
      pollGamepad gps s = pollGamepad gps' s)"
proof (intro conjI impI)
  show "gamepadIndex (onGamepadConnected idx s) = idx"
    by (simp add: onGamepadConnected_def gamepadIndex_startGamepadPolling)
  show "gamepadIndex (checkExistingGamepads (replicate n None @ Some g # rest) s) = int n"
    by (simp add: checkExistingGamepads_def checkExistingGamepadsFrom_first
        gamepadIndex_startGamepadPolling)
  show "checkExistingGamepads (replicate n None) s = s"
    by (simp add: checkExistingGamepads_def checkExistingGamepadsFrom_none)
next
  assume a: "gamepadPolling s \<noteq> None"
  show "gamepadPolling (onGamepadConnected idx s) = gamepadPolling s"
    using a by (simp add: onGamepadConnected_def startGamepadPolling_def emit_def)
  show "intervals (onGamepadConnected idx s) = intervals s"
    using a by (simp add: onGamepadConnected_def startGamepadPolling_def emit_def)
next
  assume a: "gamepadPolling s = None"
  show "gamepadPolling (onGamepadConnected idx s) = Some (nextTimerId s)"
    using a by (simp add: onGamepadConnected_def startGamepadPolling_def emit_def)
  show "pollRunning (onGamepadConnected idx s)"
    using a by (simp add: onGamepadConnected_def startGamepadPolling_def emit_def pollRunning_def)
next
  assume "getGamepad gps (gamepadIndex s) = getGamepad gps' (gamepadIndex s)"
  then show "pollGamepad gps s = pollGamepad gps' s" by (rule pollGamepad_cong)
qed

theorem last_connected_controller_is_tracked_witness:
  "gamepadIndex withPad = 0 \<and> gamepadPolling withPad \<noteq> None \<and>
   gamepadIndex (onGamepadConnected 1 withPad) = 1 \<and>
   gamepadPolling (onGamepadConnected 1 withPad) = Some 1 \<and>
   intervals (onGamepadConnected 1 withPad) = [1] \<and>
   gamepadPolling (KonamiCode True Plays []) = None \<and>
   pollRunning (onGamepadConnected 3 (KonamiCode True Plays [])) \<and>
   getGamepad [Some idlePad, None] (gamepadIndex withPad) =
     getGamepad [Some idlePad, Some (Gamepad [True])] (gamepadIndex withPad) \<and>
   pollGamepad [Some idlePad, None] withPad =
     pollGamepad [Some idlePad, Some (Gamepad [True])] withPad"
proof -
  have h: "gamepadIndex withPad = 0" "gamepadPolling withPad \<noteq> None"
    "gamepadPolling withPad = Some 1" "intervals withPad = [1]"
    "gamepadPolling (KonamiCode True Plays []) = None"
    "getGamepad [Some idlePad, None] (gamepadIndex withPad) =
       getGamepad [Some idlePad, Some (Gamepad [True])] (gamepadIndex withPad)"
    by (simp_all add: withPad_eq fresh_eq getGamepad_def nth_opt_def)
  from last_connected_controller_is_tracked [of 1 withPad _ _ _ "[Some idlePad, None]"
      "[Some idlePad, Some (Gamepad [True])]"] h(2,6)
  have r: "gamepadIndex (onGamepadConnected 1 withPad) = 1"
    "gamepadPolling (onGamepadConnected 1 withPad) = gamepadPolling withPad"
    "intervals (onGamepadConnected 1 withPad) = intervals withPad"
    "pollGamepad [Some idlePad, None] withPad =
       pollGamepad [Some idlePad, Some (Gamepad [True])] withPad"
    by blast+
  from last_connected_controller_is_tracked [of 3 "KonamiCode True Plays []"] h(5)
  have q: "pollRunning (onGamepadConnected 3 (KonamiCode True Plays []))"
    by blast
  show ?thesis using h r q by simp
qed

subsection \<open>Edge-triggered presses\<close>



lemma pressEvents_currentSequence [simp]:
  "pressEvents (s\<lparr>currentSequence := cs\<rparr>) = pressEvents s"
  by (simp add: pressEvents_def)



























subsection \<open>The first tick\<close>






end
